theory Spec2Isabelle
  imports Complex_Main "HOL-Library.Char_ord" "HOL-Library.List_Lexorder" "HOL-Library.Sublist"
    "HOL-Library.Product_Lexorder"
begin

section \<open>The financial volatility pipeline of dags/financial\_pipeline.py\<close>

text \<open>
  The DAG \<open>financial_volatility_pipeline\<close> is a chain of nine Airflow tasks over a
  PostgreSQL warehouse. Each task is embedded as a function from the state before it to
  either an error (the exception that ends the attempt) or the state after it. The SQL
  of the tasks is embedded statement by statement over relations kept as lists of rows;
  the SQL of an operator is a function of the warehouse alone, a Python callable one of
  the whole state of the run.

  Conventions of the embedding:
  \<^item> an SQL value is an \<open>option\<close>: \<open>None\<close> is NULL;
  \<^item> \<open>NUMERIC\<close> is \<open>rat\<close>, with exact arithmetic (PostgreSQL rounds a quotient to a
    result scale of at least sixteen significant digits; that rounding is not modelled);
  \<^item> \<open>DATE\<close> is the number of days since 1970-01-01;
  \<^item> a relation that has not been created yet is \<open>None\<close>, a created one is \<open>Some rows\<close>;
  \<^item> a statement that raises leaves the warehouse as it was (the operator's transaction
    is rolled back);
  \<^item> where PostgreSQL leaves the order of rows open (peers of a window ordering, the
    output of \<open>DISTINCT\<close> and \<open>GROUP BY\<close>, ties of \<open>ORDER BY\<close>) the embedding fixes one:
    sorting is stable with respect to the stored order, and duplicates are removed with
    \<open>remdups\<close>.
\<close>

subsection \<open>Values and rows\<close>

type_synonym date = int
type_synonym numeric = rat

datatype error =
    FileNotFoundError
  | TypeError
  | AirflowException
  | UndefinedTable
  | NotNullViolation
  | ForeignKeyViolation
  | DivisionByZero

text \<open>\<open>staging (date, symbol, open, high, low, close, volume)\<close>, no constraint.\<close>

record staging_row =
  s_date :: "date option"
  s_symbol :: "string option"
  s_open :: "numeric option"
  s_high :: "numeric option"
  s_low :: "numeric option"
  s_close :: "numeric option"
  s_volume :: "int option"

text \<open>\<open>dim_instrumento (ticker PRIMARY KEY, nome_ativo, tipo_ativo)\<close>.\<close>

record dim_instrumento_row =
  ticker :: string
  nome_ativo :: "string option"
  tipo_ativo :: "string option"

text \<open>\<open>dim_tempo (data_id PRIMARY KEY, ano, mes, dia_da_semana)\<close>.\<close>

record dim_tempo_row =
  data_id :: date
  ano :: "int option"
  mes :: "int option"
  dia_da_semana :: "int option"

text \<open>
  \<open>fact_movimentacao_diaria (id SERIAL PRIMARY KEY, ticker, data_id, open, high, low,
  close, volume, variacao_diaria)\<close>.
\<close>

record fact_row =
  f_id :: int
  f_ticker :: "string option"
  f_data_id :: "date option"
  f_open :: "numeric option"
  f_high :: "numeric option"
  f_low :: "numeric option"
  f_close :: "numeric option"
  f_volume :: "int option"
  variacao_diaria :: "numeric option"

text \<open>The materialized view \<open>volatility_weekly (ticker, week, vol)\<close>.\<close>

record vol_row =
  v_ticker :: "string option"
  week :: "date option"
  vol :: "numeric option"

text \<open>
  The warehouse: the five relations and the sequence behind the \<open>SERIAL\<close> column of the
  fact table (\<open>fact_id_seq\<close> is the last value it handed out, 0 at first).
\<close>

record warehouse =
  staging :: "staging_row list option"
  dim_instrumento :: "dim_instrumento_row list option"
  dim_tempo :: "dim_tempo_row list option"
  fact_movimentacao_diaria :: "fact_row list option"
  fact_id_seq :: int
  volatility_weekly :: "vol_row list option"

text \<open>
  What one DAG run threads through its tasks: the warehouse, the XCom store (keyed by
  the pushing task and the key) and the lines logged.
\<close>

record run_state =
  db :: warehouse
  xcom :: "(string \<times> string) \<rightharpoonup> string"
  logged :: "string list"

definition empty_warehouse :: warehouse where
  "empty_warehouse =
     \<lparr>staging = None, dim_instrumento = None, dim_tempo = None,
      fact_movimentacao_diaria = None, fact_id_seq = 0, volatility_weekly = None\<rparr>"

definition rows_of :: "'a list option \<Rightarrow> 'a list" where
  "rows_of t = (case t of None \<Rightarrow> [] | Some rows \<Rightarrow> rows)"

subsection \<open>SQL expressions\<close>

fun sql_and :: "bool option \<Rightarrow> bool option \<Rightarrow> bool option" where
  "sql_and (Some False) _ = Some False"
| "sql_and _ (Some False) = Some False"
| "sql_and (Some True) (Some True) = Some True"
| "sql_and _ _ = None"

fun sql_eq :: "'a option \<Rightarrow> 'a option \<Rightarrow> bool option" where
  "sql_eq (Some a) (Some b) = Some (a = b)"
| "sql_eq _ _ = None"

fun sql_sub :: "numeric option \<Rightarrow> numeric option \<Rightarrow> numeric option" where
  "sql_sub (Some a) (Some b) = Some (a - b)"
| "sql_sub _ _ = None"

fun sql_mul :: "numeric option \<Rightarrow> numeric option \<Rightarrow> numeric option" where
  "sql_mul (Some a) (Some b) = Some (a * b)"
| "sql_mul _ _ = None"

text \<open>Division is strict in NULL and raises on a zero divisor.\<close>

fun sql_div :: "numeric option \<Rightarrow> numeric option \<Rightarrow> error + numeric option" where
  "sql_div (Some a) (Some b) = (if b = 0 then Inl DivisionByZero else Inr (Some (a / b)))"
| "sql_div _ _ = Inr None"

fun sql_nullif :: "numeric option \<Rightarrow> numeric \<Rightarrow> numeric option" where
  "sql_nullif (Some a) b = (if a = b then None else Some a)"
| "sql_nullif None _ = None"

text \<open>\<open>SUM\<close> over no row is NULL.\<close>

definition sql_sum :: "int list \<Rightarrow> int option" where
  "sql_sum xs = (case xs of [] \<Rightarrow> None | _ \<Rightarrow> Some (sum_list xs))"

text \<open>\<open>a || b\<close>.\<close>

fun sql_concat :: "string option \<Rightarrow> string option \<Rightarrow> string option" where
  "sql_concat (Some a) (Some b) = Some (a @ b)"
| "sql_concat _ _ = None"

text \<open>
  The calendar: \<open>EXTRACT(YEAR | MONTH | DOW FROM date)\<close> and \<open>DATE_TRUNC('week', date)\<close>
  (the Monday of the date's week) on days since 1970-01-01, a Thursday.
\<close>

definition civil_from_days :: "date \<Rightarrow> int \<times> int \<times> int" where
  "civil_from_days z0 =
     (let z = z0 + 719468;
          era = z div 146097;
          doe = z - era * 146097;
          yoe = (doe - doe div 1460 + doe div 36524 - doe div 146096) div 365;
          y = yoe + era * 400;
          doy = doe - (365 * yoe + yoe div 4 - yoe div 100);
          mp = (5 * doy + 2) div 153;
          d = doy - (153 * mp + 2) div 5 + 1;
          m = (if mp < 10 then mp + 3 else mp - 9)
      in (if m \<le> 2 then y + 1 else y, m, d))"

definition extract_year :: "date \<Rightarrow> int" where
  "extract_year d = fst (civil_from_days d)"

definition extract_month :: "date \<Rightarrow> int" where
  "extract_month d = fst (snd (civil_from_days d))"

definition extract_dow :: "date \<Rightarrow> int" where
  "extract_dow d = (d + 4) mod 7"

definition date_trunc_week :: "date \<Rightarrow> date" where
  "date_trunc_week d = d - (d + 3) mod 7"

subsection \<open>The operators\<close>

text \<open>\<open>PostgresOperator\<close>: run the SQL, commit what it did unless it raised.\<close>

definition postgres_operator ::
  "(warehouse \<Rightarrow> error + warehouse) \<Rightarrow> run_state \<Rightarrow> error + run_state" where
  "postgres_operator sql rs =
     (case sql (db rs) of Inl e \<Rightarrow> Inl e | Inr w \<Rightarrow> Inr (rs\<lparr>db := w\<rparr>))"

text \<open>
  \<open>SQLCheckOperator\<close>: run the query and raise \<open>AirflowException\<close> unless every value of
  its first row is truthy (here the row has one value; NULL arrives as \<open>None\<close>, which is
  not truthy).
\<close>

definition check_passes :: "bool option \<Rightarrow> bool" where
  "check_passes v = (v = Some True)"

definition sql_check_operator ::
  "(warehouse \<Rightarrow> error + bool option) \<Rightarrow> run_state \<Rightarrow> error + run_state" where
  "sql_check_operator sql rs =
     (case sql (db rs) of
        Inl e \<Rightarrow> Inl e
      | Inr v \<Rightarrow> if check_passes v then Inr rs else Inl AirflowException)"

subsection \<open>Task \<open>setup_staging_table\<close>\<close>

text \<open>\<open>CREATE TABLE IF NOT EXISTS staging (...)\<close>.\<close>

definition setup_staging_table :: "warehouse \<Rightarrow> error + warehouse" where
  "setup_staging_table w = Inr (w\<lparr>staging := Some (rows_of (staging w))\<rparr>)"

subsection \<open>Tasks \<open>locate_csv\<close> and \<open>load_staging\<close>\<close>

text \<open>
  The file system is a map from a path to the rows the CSV file there holds (the parsing
  of the file by \<open>COPY\<close> is outside the embedding); no file, no entry.
\<close>

type_synonym file_system = "string \<rightharpoonup> staging_row list"

definition csv_path :: string where
  "csv_path = ''/opt/airflow/data/financial_market_750k.csv''"

definition locate_csv :: "file_system \<Rightarrow> run_state \<Rightarrow> error + run_state" where
  "locate_csv fs rs =
     (if fs csv_path = None then Inl FileNotFoundError
      else Inr (rs\<lparr>xcom := (xcom rs)((''locate_csv'', ''csv_path'') \<mapsto> csv_path)\<rparr>))"

text \<open>
  \<open>xcom_pull\<close> of a key nobody pushed gives Python's \<open>None\<close>, and \<open>open(None)\<close> raises
  \<open>TypeError\<close>; \<open>TRUNCATE TABLE staging\<close> comes before the file is opened.
\<close>

definition load_staging :: "file_system \<Rightarrow> run_state \<Rightarrow> error + run_state" where
  "load_staging fs rs =
     (case staging (db rs) of
        None \<Rightarrow> Inl UndefinedTable
      | Some _ \<Rightarrow>
          (case xcom rs (''locate_csv'', ''csv_path'') of
             None \<Rightarrow> Inl TypeError
           | Some p \<Rightarrow>
               (case fs p of
                  None \<Rightarrow> Inl FileNotFoundError
                | Some rows \<Rightarrow> Inr (rs\<lparr>db := (db rs)\<lparr>staging := Some rows\<rparr>\<rparr>))))"

subsection \<open>Task \<open>run_data_quality_checks\<close>\<close>

text \<open>
  \<open>SELECT COUNT(*) = 750000 AND SUM(CASE WHEN close IS NULL OR date IS NULL THEN 1 ELSE 0
  END) = 0 FROM staging\<close>: one row with one three-valued boolean.
\<close>

definition null_flag :: "staging_row \<Rightarrow> int" where
  "null_flag r = (if s_close r = None \<or> s_date r = None then 1 else 0)"

definition quality_query :: "staging_row list \<Rightarrow> bool option" where
  "quality_query rows =
     sql_and (Some (int (length rows) = 750000))
             (sql_eq (sql_sum (map null_flag rows)) (Some 0))"

definition run_data_quality_checks :: "warehouse \<Rightarrow> error + bool option" where
  "run_data_quality_checks w =
     (case staging w of
        None \<Rightarrow> Inl UndefinedTable
      | Some rows \<Rightarrow> Inr (quality_query rows))"

subsection \<open>Task \<open>create_dim_tables\<close>\<close>

text \<open>
  \<open>SELECT DISTINCT symbol, 'Ativo ' || symbol, 'Acao' FROM staging\<close> and
  \<open>SELECT DISTINCT date, EXTRACT(YEAR FROM date), EXTRACT(MONTH FROM date),
  EXTRACT(DOW FROM date) FROM staging\<close>.
\<close>

definition select_instrumentos ::
  "staging_row list \<Rightarrow> (string option \<times> string option \<times> string option) list" where
  "select_instrumentos rows =
     remdups (map (\<lambda>r. (s_symbol r, sql_concat (Some ''Ativo '') (s_symbol r), Some ''Acao'')) rows)"

definition select_tempos ::
  "staging_row list \<Rightarrow> (date option \<times> int option \<times> int option \<times> int option) list" where
  "select_tempos rows =
     remdups (map (\<lambda>r. (s_date r, map_option extract_year (s_date r),
                          map_option extract_month (s_date r),
                          map_option extract_dow (s_date r))) rows)"

text \<open>
  \<open>INSERT ... ON CONFLICT (key) DO NOTHING\<close>, row by row: a row whose key is already in
  the table is skipped, a NULL key violates the primary key's NOT NULL.
\<close>

fun insert_instrumentos ::
  "dim_instrumento_row list \<Rightarrow> (string option \<times> string option \<times> string option) list
     \<Rightarrow> error + dim_instrumento_row list" where
  "insert_instrumentos tbl [] = Inr tbl"
| "insert_instrumentos tbl ((None, n, t) # xs) = Inl NotNullViolation"
| "insert_instrumentos tbl ((Some k, n, t) # xs) =
     (if k \<in> set (map ticker tbl) then insert_instrumentos tbl xs
      else insert_instrumentos (tbl @ [\<lparr>ticker = k, nome_ativo = n, tipo_ativo = t\<rparr>]) xs)"

fun insert_tempos ::
  "dim_tempo_row list \<Rightarrow> (date option \<times> int option \<times> int option \<times> int option) list
     \<Rightarrow> error + dim_tempo_row list" where
  "insert_tempos tbl [] = Inr tbl"
| "insert_tempos tbl ((None, y, m, w) # xs) = Inl NotNullViolation"
| "insert_tempos tbl ((Some d, y, m, w) # xs) =
     (if d \<in> set (map data_id tbl) then insert_tempos tbl xs
      else insert_tempos (tbl @ [\<lparr>data_id = d, ano = y, mes = m, dia_da_semana = w\<rparr>]) xs)"

definition create_dim_tables :: "warehouse \<Rightarrow> error + warehouse" where
  "create_dim_tables w =
     (case staging w of
        None \<Rightarrow> Inl UndefinedTable
      | Some rows \<Rightarrow>
          (case insert_instrumentos (rows_of (dim_instrumento w)) (select_instrumentos rows) of
             Inl e \<Rightarrow> Inl e
           | Inr di \<Rightarrow>
               (case insert_tempos (rows_of (dim_tempo w)) (select_tempos rows) of
                  Inl e \<Rightarrow> Inl e
                | Inr dt \<Rightarrow> Inr (w\<lparr>dim_instrumento := Some di, dim_tempo := Some dt\<rparr>))))"

subsection \<open>Task \<open>load_fact_table\<close>\<close>

text \<open>
  The window \<open>PARTITION BY s.symbol ORDER BY s.date\<close>: one partition per symbol (NULL
  symbols form one partition), each in ascending date order with NULL dates last.
\<close>

definition date_key :: "date option \<Rightarrow> bool \<times> int" where
  "date_key d = (case d of None \<Rightarrow> (True, 0) | Some x \<Rightarrow> (False, x))"

definition symbol_key :: "string option \<Rightarrow> bool \<times> string" where
  "symbol_key k = (case k of None \<Rightarrow> (True, []) | Some x \<Rightarrow> (False, x))"

definition window_partitions :: "staging_row list \<Rightarrow> staging_row list list" where
  "window_partitions rows =
     map (\<lambda>k. sort_key (\<lambda>r. date_key (s_date r)) (filter (\<lambda>r. s_symbol r = k) rows))
         (sort_key symbol_key (remdups (map s_symbol rows)))"

text \<open>\<open>LAG(s.close)\<close>: the close of the row before in the partition, NULL for its first row.\<close>

definition lag_close :: "staging_row list \<Rightarrow> (staging_row \<times> numeric option) list" where
  "lag_close p = zip p (None # map s_close p)"

text \<open>\<open>(s.close - LAG(s.close)) / NULLIF(LAG(s.close), 0) * 100\<close>.\<close>

definition variacao_expr :: "numeric option \<Rightarrow> numeric option \<Rightarrow> error + numeric option" where
  "variacao_expr c lag =
     (case sql_div (sql_sub c lag) (sql_nullif lag 0) of
        Inl e \<Rightarrow> Inl e
      | Inr q \<Rightarrow> Inr (sql_mul q (Some 100)))"

fun collect :: "(error + 'a) list \<Rightarrow> error + 'a list" where
  "collect [] = Inr []"
| "collect (Inl e # xs) = Inl e"
| "collect (Inr x # xs) = (case collect xs of Inl e \<Rightarrow> Inl e | Inr ys \<Rightarrow> Inr (x # ys))"

definition fact_select :: "staging_row list \<Rightarrow> error + (staging_row \<times> numeric option) list" where
  "fact_select rows =
     collect (map (\<lambda>(r, lag). case variacao_expr (s_close r) lag of
                                 Inl e \<Rightarrow> Inl e
                               | Inr v \<Rightarrow> Inr (r, v))
                  (concat (map lag_close (window_partitions rows))))"

text \<open>The inserted rows take their \<open>id\<close> from the sequence, one after the other.\<close>

fun insert_facts :: "int \<Rightarrow> (staging_row \<times> numeric option) list \<Rightarrow> fact_row list" where
  "insert_facts sq [] = []"
| "insert_facts sq ((r, v) # xs) =
     \<lparr>f_id = sq + 1, f_ticker = s_symbol r, f_data_id = s_date r, f_open = s_open r,
      f_high = s_high r, f_low = s_low r, f_close = s_close r, f_volume = s_volume r,
      variacao_diaria = v\<rparr> # insert_facts (sq + 1) xs"

text \<open>The two \<open>REFERENCES\<close> constraints; a NULL reference is not checked.\<close>

definition references_ok ::
  "dim_instrumento_row list \<Rightarrow> dim_tempo_row list \<Rightarrow> fact_row \<Rightarrow> bool" where
  "references_ok di dt f =
     ((case f_ticker f of None \<Rightarrow> True | Some k \<Rightarrow> k \<in> set (map ticker di)) \<and>
      (case f_data_id f of None \<Rightarrow> True | Some d \<Rightarrow> d \<in> set (map data_id dt)))"

text \<open>
  \<open>CREATE TABLE IF NOT EXISTS\<close>, \<open>TRUNCATE TABLE fact_movimentacao_diaria\<close> (the sequence
  is not restarted: \<open>CONTINUE IDENTITY\<close> is the default), then the \<open>INSERT ... SELECT\<close>.
\<close>

definition load_fact_table :: "warehouse \<Rightarrow> error + warehouse" where
  "load_fact_table w =
     (case (staging w, dim_instrumento w, dim_tempo w) of
        (Some rows, Some di, Some dt) \<Rightarrow>
          (case fact_select rows of
             Inl e \<Rightarrow> Inl e
           | Inr sel \<Rightarrow>
               (let seq0 = (case fact_movimentacao_diaria w of
                              None \<Rightarrow> 0 | Some _ \<Rightarrow> fact_id_seq w);
                    facts = insert_facts seq0 sel
                in if list_all (references_ok di dt) facts
                   then Inr (w\<lparr>fact_movimentacao_diaria := Some facts,
                               fact_id_seq := seq0 + int (length sel)\<rparr>)
                   else Inl ForeignKeyViolation))
      | _ \<Rightarrow> Inl UndefinedTable)"

subsection \<open>Task \<open>calculate_volatility_view\<close>\<close>

text \<open>
  \<open>STDDEV_SAMP\<close> over the non-null values of a group: NULL for fewer than two values,
  else the square root of \<open>(N * sum(x^2) - sum(x)^2) / (N * (N - 1))\<close>. The square root of
  a \<open>NUMERIC\<close> is PostgreSQL's own; it is the parameter \<open>sqrt_numeric\<close>.
\<close>

definition stddev_samp :: "(numeric \<Rightarrow> numeric) \<Rightarrow> numeric option list \<Rightarrow> numeric option" where
  "stddev_samp sqrt_numeric vs =
     (let xs = List.map_filter id vs;
          n = of_nat (length xs);
          numerator = n * sum_list (map (\<lambda>x. x * x) xs) - sum_list xs * sum_list xs
      in if length xs \<le> 1 then None
         else if numerator \<le> 0 then Some 0
         else Some (sqrt_numeric (numerator / (n * (n - 1)))))"

definition group_key :: "fact_row \<Rightarrow> string option \<times> date option" where
  "group_key f = (f_ticker f, map_option date_trunc_week (f_data_id f))"

text \<open>
  \<open>SELECT ticker, DATE_TRUNC('week', data_id) AS week, STDDEV_SAMP(variacao_diaria) AS vol
  FROM fact_movimentacao_diaria WHERE variacao_diaria IS NOT NULL
  GROUP BY ticker, DATE_TRUNC('week', data_id)\<close>.
\<close>

definition volatility_query :: "(numeric \<Rightarrow> numeric) \<Rightarrow> fact_row list \<Rightarrow> vol_row list" where
  "volatility_query sqrt_numeric facts =
     (let sel = filter (\<lambda>f. variacao_diaria f \<noteq> None) facts
      in map (\<lambda>k. \<lparr>v_ticker = fst k, week = snd k,
                    vol = stddev_samp sqrt_numeric
                            (map variacao_diaria (filter (\<lambda>f. group_key f = k) sel))\<rparr>)
             (remdups (map group_key sel)))"

text \<open>
  \<open>CREATE MATERIALIZED VIEW IF NOT EXISTS volatility_weekly AS ...\<close> and
  \<open>REFRESH MATERIALIZED VIEW volatility_weekly\<close>: either way the view ends as the query
  over the present fact table.
\<close>

definition calculate_volatility_view ::
  "(numeric \<Rightarrow> numeric) \<Rightarrow> warehouse \<Rightarrow> error + warehouse" where
  "calculate_volatility_view sqrt_numeric w =
     (case fact_movimentacao_diaria w of
        None \<Rightarrow> Inl UndefinedTable
      | Some facts \<Rightarrow> Inr (w\<lparr>volatility_weekly := Some (volatility_query sqrt_numeric facts)\<rparr>))"

subsection \<open>Task \<open>report_top_volatility\<close>\<close>

text \<open>\<open>AVG\<close> as PostgreSQL accumulates it: a sum and a count over the non-null inputs.\<close>

fun avg_accum :: "numeric \<times> nat \<Rightarrow> numeric option \<Rightarrow> numeric \<times> nat" where
  "avg_accum (s, n) None = (s, n)"
| "avg_accum (s, n) (Some x) = (s + x, Suc n)"

definition sql_avg :: "numeric option list \<Rightarrow> numeric option" where
  "sql_avg vs = (case foldl avg_accum (0, 0) vs of
                   (s, n) \<Rightarrow> if n = 0 then None else Some (s / of_nat n))"

text \<open>\<open>SELECT ticker, AVG(vol) AS avg_volatility FROM volatility_weekly GROUP BY ticker\<close>.\<close>

definition ticker_averages :: "vol_row list \<Rightarrow> (string option \<times> numeric option) list" where
  "ticker_averages rows =
     map (\<lambda>t. (t, sql_avg (map vol (filter (\<lambda>r. v_ticker r = t) rows))))
         (remdups (map v_ticker rows))"

text \<open>
  \<open>ORDER BY avg_volatility DESC\<close>: PostgreSQL sorts NULL as larger than every value, so
  with \<open>DESC\<close> the NULLs come first. The key below is ascending in that order.
\<close>

definition desc_key :: "numeric option \<Rightarrow> bool \<times> numeric" where
  "desc_key a = (case a of None \<Rightarrow> (False, 0) | Some x \<Rightarrow> (True, - x))"

definition top_volatility_query :: "vol_row list \<Rightarrow> (string option \<times> numeric option) list" where
  "top_volatility_query rows = take 1 (sort_key (\<lambda>row. desc_key (snd row)) (ticker_averages rows))"

text \<open>Python's \<open>str\<close> of a value that may be \<open>None\<close>.\<close>

definition py_str :: "string option \<Rightarrow> string" where
  "py_str v = (case v of None \<Rightarrow> ''None'' | Some s \<Rightarrow> s)"

text \<open>The two messages, as UTF-8 bytes.\<close>

definition no_data_message :: string where
  "no_data_message =
     ''Nenhum dado de volatilidade dispon'' @ [CHR 0xC3, CHR 0xAD] @ ''vel.''"

definition top_message :: "string \<Rightarrow> string \<Rightarrow> string" where
  "top_message tk formatted =
     ''Ativo '' @ tk @ '' registrou maior volatilidade m'' @ [CHR 0xC3, CHR 0xA9] @ ''dia (''
       @ formatted @ ''%) na semana. Recomenda-se revisar hedge e limites.''"

text \<open>
  \<open>get_pandas_df\<close> gives a frame of at most one row. A NULL average arrives as Python's
  \<open>None\<close>, which the format \<open>:.2f\<close> refuses with \<open>TypeError\<close>; the rendering of a number
  by \<open>:.2f\<close> (a float's) is the parameter \<open>format_2f\<close>.
\<close>

definition report_top_volatility :: "(numeric \<Rightarrow> string) \<Rightarrow> run_state \<Rightarrow> error + run_state" where
  "report_top_volatility format_2f rs =
     (case volatility_weekly (db rs) of
        None \<Rightarrow> Inl UndefinedTable
      | Some rows \<Rightarrow>
          (case top_volatility_query rows of
             [] \<Rightarrow>
               Inr (rs\<lparr>xcom := (xcom rs)((''report_top_volatility'', ''report_message'')
                                  \<mapsto> no_data_message)\<rparr>)
           | best # _ \<Rightarrow>
               (case snd best of
                  None \<Rightarrow> Inl TypeError
                | Some a \<Rightarrow>
                    Inr (rs\<lparr>xcom := (xcom rs)((''report_top_volatility'', ''report_message'')
                                  \<mapsto> top_message (py_str (fst best)) (format_2f a))\<rparr>))))"

subsection \<open>Task \<open>log_execution_summary\<close>\<close>

definition log_execution_summary :: "run_state \<Rightarrow> error + run_state" where
  "log_execution_summary rs =
     Inr (rs\<lparr>logged := logged rs @
            [''Resumo executivo: '' @ py_str (xcom rs (''report_top_volatility'', ''report_message''))]\<rparr>)"

subsection \<open>The DAG and its run\<close>

text \<open>
  A task has its id, the \<open>retries\<close> it takes from \<open>default_args\<close> and what it executes.
  Airflow attempts a task whose execution raised again until its retries are used up
  (\<open>FileNotFoundError\<close> and \<open>AirflowException\<close> are ordinary exceptions to it; the delay of
  five minutes between attempts is not modelled). Nothing but the tasks changes the
  state, so every attempt of a task starts from the same state.
\<close>

record task =
  task_id :: string
  retries :: nat
  execute :: "run_state \<Rightarrow> error + run_state"

datatype task_state = Success | Failed | Upstream_failed

record task_instance =
  ti_task_id :: string
  ti_state :: task_state
  try_number :: nat

text \<open>\<open>attempt n act s\<close>: the number of attempts made and the outcome of the last one.\<close>

fun attempt :: "nat \<Rightarrow> (run_state \<Rightarrow> error + run_state) \<Rightarrow> run_state \<Rightarrow> nat \<times> (error + run_state)" where
  "attempt 0 act s = (1, act s)"
| "attempt (Suc n) act s =
     (case act s of
        Inr s' \<Rightarrow> (1, Inr s')
      | Inl e \<Rightarrow> (case attempt n act s of (k, r) \<Rightarrow> (Suc k, r)))"

text \<open>
  The chain \<open>a >> b >> ...\<close> with the default trigger rule: a task runs once the one before
  it succeeded; after a failed task every later one ends \<open>upstream_failed\<close>, never run.
\<close>

fun run_chain :: "task list \<Rightarrow> run_state \<Rightarrow> task_instance list \<times> run_state" where
  "run_chain [] s = ([], s)"
| "run_chain (t # ts) s =
     (case attempt (retries t) (execute t) s of
        (k, Inr s') \<Rightarrow>
          (case run_chain ts s' of
             (tis, s'') \<Rightarrow> (\<lparr>ti_task_id = task_id t, ti_state = Success, try_number = k\<rparr> # tis, s''))
      | (k, Inl e) \<Rightarrow>
          (\<lparr>ti_task_id = task_id t, ti_state = Failed, try_number = k\<rparr>
             # map (\<lambda>u. \<lparr>ti_task_id = task_id u, ti_state = Upstream_failed, try_number = 0\<rparr>) ts,
           s))"

definition default_retries :: nat where
  "default_retries = 3"

definition pipeline ::
  "(numeric \<Rightarrow> numeric) \<Rightarrow> (numeric \<Rightarrow> string) \<Rightarrow> file_system \<Rightarrow> task list" where
  "pipeline sqrt_numeric format_2f fs =
     [\<lparr>task_id = ''setup_staging_table'', retries = default_retries, execute = postgres_operator setup_staging_table\<rparr>,
      \<lparr>task_id = ''locate_csv'', retries = default_retries, execute = locate_csv fs\<rparr>,
      \<lparr>task_id = ''load_staging'', retries = default_retries, execute = load_staging fs\<rparr>,
      \<lparr>task_id = ''run_data_quality_checks'', retries = default_retries,
        execute = sql_check_operator run_data_quality_checks\<rparr>,
      \<lparr>task_id = ''create_dim_tables'', retries = default_retries, execute = postgres_operator create_dim_tables\<rparr>,
      \<lparr>task_id = ''load_fact_table'', retries = default_retries, execute = postgres_operator load_fact_table\<rparr>,
      \<lparr>task_id = ''calculate_volatility_view'', retries = default_retries,
        execute = postgres_operator (calculate_volatility_view sqrt_numeric)\<rparr>,
      \<lparr>task_id = ''report_top_volatility'', retries = default_retries,
        execute = report_top_volatility format_2f\<rparr>,
      \<lparr>task_id = ''log_execution_summary'', retries = default_retries,
        execute = log_execution_summary\<rparr>]"

text \<open>A DAG run: its state, its task instances and what it leaves behind.\<close>

datatype dag_state = Run_success | Run_failed

record dag_run =
  run_status :: dag_state
  task_instances :: "task_instance list"
  final :: run_state

definition run_pipeline ::
  "(numeric \<Rightarrow> numeric) \<Rightarrow> (numeric \<Rightarrow> string) \<Rightarrow> file_system \<Rightarrow> warehouse \<Rightarrow> dag_run" where
  "run_pipeline sqrt_numeric format_2f fs w =
     (case run_chain (pipeline sqrt_numeric format_2f fs) \<lparr>db = w, xcom = Map.empty, logged = []\<rparr> of
        (tis, s) \<Rightarrow>
          \<lparr>run_status = (if list_all (\<lambda>ti. ti_state ti = Success) tis then Run_success else Run_failed),
           task_instances = tis, final = s\<rparr>)"

text \<open>Run after run, each with the file system it finds.\<close>

fun run_many ::
  "(numeric \<Rightarrow> numeric) \<Rightarrow> (numeric \<Rightarrow> string) \<Rightarrow> file_system list \<Rightarrow> warehouse \<Rightarrow> warehouse" where
  "run_many sqrt_numeric format_2f [] w = w"
| "run_many sqrt_numeric format_2f (fs # fss) w =
     run_many sqrt_numeric format_2f fss (db (final (run_pipeline sqrt_numeric format_2f fs w)))"

text \<open>The attempts the run made of a task.\<close>

definition tries_of :: "string \<Rightarrow> dag_run \<Rightarrow> nat list" where
  "tries_of tid r = map try_number (filter (\<lambda>ti. ti_task_id ti = tid) (task_instances r))"

definition state_of :: "string \<Rightarrow> dag_run \<Rightarrow> task_state list" where
  "state_of tid r = map ti_state (filter (\<lambda>ti. ti_task_id ti = tid) (task_instances r))"

subsection \<open>Example data\<close>

text \<open>A staging row with every column set: symbol, date, and one price for all four.\<close>

definition clean_row :: "string \<Rightarrow> date \<Rightarrow> numeric \<Rightarrow> staging_row" where
  "clean_row k d c =
     \<lparr>s_date = Some d, s_symbol = Some k, s_open = Some c, s_high = Some c, s_low = Some c,
      s_close = Some c, s_volume = Some 0\<rparr>"

text \<open>A warehouse as an earlier run left it: one instrument, one date, one fact row.\<close>

definition sample_warehouse :: warehouse where
  "sample_warehouse =
     \<lparr>staging = Some [clean_row ''XYZ'' 19358 10],
      dim_instrumento =
        Some [\<lparr>ticker = ''XYZ'', nome_ativo = Some ''Ativo XYZ'', tipo_ativo = Some ''Acao''\<rparr>],
      dim_tempo = Some [\<lparr>data_id = 19358, ano = Some 2023, mes = Some 1, dia_da_semana = Some 0\<rparr>],
      fact_movimentacao_diaria =
        Some [\<lparr>f_id = 1, f_ticker = Some ''XYZ'', f_data_id = Some 19358, f_open = Some 10,
               f_high = Some 10, f_low = Some 10, f_close = Some 10, f_volume = Some 0,
               variacao_diaria = None\<rparr>],
      fact_id_seq = 1,
      volatility_weekly = Some []\<rparr>"

text \<open>A file system with the CSV file, and one without.\<close>

definition csv_with :: "staging_row list \<Rightarrow> file_system" where
  "csv_with rows = Map.empty(csv_path \<mapsto> rows)"

definition no_csv :: file_system where
  "no_csv = Map.empty"

text \<open>Stand-ins for the two library functions, for runs that never reach them.\<close>

definition sqrt_stub :: "numeric \<Rightarrow> numeric" where
  "sqrt_stub x = x"

definition format_stub :: "numeric \<Rightarrow> string" where
  "format_stub x = ''?''"

text \<open>The arithmetic mean of a list of numbers, undefined (NULL) for the empty list.\<close>

definition mean :: "numeric list \<Rightarrow> numeric option" where
  "mean xs = (if xs = [] then None else Some (sum_list xs / of_nat (length xs)))"

text \<open>
  Two tickers over the week of Monday 2023-01-02 (day 19359): \<open>AAA\<close> on two days, \<open>BBB\<close>
  on three.
\<close>

definition two_ticker_rows :: "staging_row list" where
  "two_ticker_rows =
     [clean_row ''AAA'' 19359 10, clean_row ''AAA'' 19360 11,
      clean_row ''BBB'' 19359 10, clean_row ''BBB'' 19360 12, clean_row ''BBB'' 19361 9]"

text \<open>The fact rows of those: \<open>AAA\<close> has one daily change in the week, \<open>BBB\<close> has two.\<close>

definition fact_of :: "int \<Rightarrow> string \<Rightarrow> date \<Rightarrow> numeric \<Rightarrow> numeric option \<Rightarrow> fact_row" where
  "fact_of i k d c v =
     \<lparr>f_id = i, f_ticker = Some k, f_data_id = Some d, f_open = Some c, f_high = Some c,
      f_low = Some c, f_close = Some c, f_volume = Some 0, variacao_diaria = v\<rparr>"

definition two_ticker_facts :: "fact_row list" where
  "two_ticker_facts =
     [fact_of 1 ''AAA'' 19359 10 None, fact_of 2 ''AAA'' 19360 11 (Some 10),
      fact_of 3 ''BBB'' 19359 10 None, fact_of 4 ''BBB'' 19360 12 (Some 20),
      fact_of 5 ''BBB'' 19361 9 (Some (- 25))]"

text \<open>A weekly volatility where \<open>AAA\<close> has no volatility to average and \<open>BBB\<close> has one.\<close>

definition null_first_view :: "vol_row list" where
  "null_first_view =
     [\<lparr>v_ticker = Some ''AAA'', week = Some 19359, vol = None\<rparr>,
      \<lparr>v_ticker = Some ''BBB'', week = Some 19359, vol = Some 5\<rparr>]"

text \<open>
  \<open>dims_grow w w'\<close>: the two dimensions of \<open>w'\<close> start with the rows of \<open>w\<close>, unchanged and
  in place, and their keys are unique if those of \<open>w\<close> were.
\<close>

definition dims_grow :: "warehouse \<Rightarrow> warehouse \<Rightarrow> bool" where
  "dims_grow w w' =
     (prefix (rows_of (dim_instrumento w)) (rows_of (dim_instrumento w'))
      \<and> prefix (rows_of (dim_tempo w)) (rows_of (dim_tempo w'))
      \<and> (distinct (map ticker (rows_of (dim_instrumento w)))
           \<longrightarrow> distinct (map ticker (rows_of (dim_instrumento w'))))
      \<and> (distinct (map data_id (rows_of (dim_tempo w)))
           \<longrightarrow> distinct (map data_id (rows_of (dim_tempo w')))))"

subsection \<open>What the fact table is meant to hold\<close>

text \<open>
  The vocabulary of the statements about the fact table, independent of the window:
  the rows of a ticker before a date, and the close of the last of them in ascending
  date order (the close of the immediately preceding date).
\<close>

fun before :: "date option \<Rightarrow> date option \<Rightarrow> bool" where
  "before (Some x) (Some y) = (x < y)"
| "before _ _ = False"

definition previous_rows ::
  "staging_row list \<Rightarrow> string option \<Rightarrow> date option \<Rightarrow> staging_row list" where
  "previous_rows st k d = filter (\<lambda>q. s_symbol q = k \<and> before (s_date q) d) st"

definition previous_close ::
  "staging_row list \<Rightarrow> string option \<Rightarrow> date option \<Rightarrow> numeric option" where
  "previous_close st k d =
     (case sort_key (\<lambda>q. date_key (s_date q)) (previous_rows st k d) of
        [] \<Rightarrow> None
      | ps \<Rightarrow> s_close (last ps))"

text \<open>\<open>(close - previous_close) / previous_close * 100\<close>, null without a nonzero previous close.\<close>

definition percent_change :: "numeric option \<Rightarrow> numeric option \<Rightarrow> numeric option" where
  "percent_change c p =
     (case (c, p) of
        (Some x, Some y) \<Rightarrow> if y = 0 then None else Some ((x - y) / y * 100)
      | _ \<Rightarrow> None)"

text \<open>The staging row a fact row was made from.\<close>

definition staging_of :: "fact_row \<Rightarrow> staging_row" where
  "staging_of f =
     \<lparr>s_date = f_data_id f, s_symbol = f_ticker f, s_open = f_open f, s_high = f_high f,
      s_low = f_low f, s_close = f_close f, s_volume = f_volume f\<rparr>"

text \<open>
  Two conditions on a staging relation: no null \<open>date\<close> or \<open>close\<close> (what the quality check
  lets through), and at most one row for a ticker and a date.
\<close>

definition no_null_date_close :: "staging_row list \<Rightarrow> bool" where
  "no_null_date_close st = list_all (\<lambda>r. s_date r \<noteq> None \<and> s_close r \<noteq> None) st"

definition one_row_per_day :: "staging_row list \<Rightarrow> bool" where
  "one_row_per_day st = distinct (map (\<lambda>r. (s_symbol r, s_date r)) st)"

text \<open>
  Warehouses as \<open>create_dim_tables\<close> leaves them on a fresh database: the staged rows, the
  instruments and the dates of the staging, no fact table yet.
\<close>

definition instrumento_of :: "string \<Rightarrow> dim_instrumento_row" where
  "instrumento_of k = \<lparr>ticker = k, nome_ativo = Some (''Ativo '' @ k), tipo_ativo = Some ''Acao''\<rparr>"

definition tempo_of :: "date \<Rightarrow> dim_tempo_row" where
  "tempo_of d =
     \<lparr>data_id = d, ano = Some (extract_year d), mes = Some (extract_month d),
      dia_da_semana = Some (extract_dow d)\<rparr>"

definition warehouse_with ::
  "staging_row list \<Rightarrow> string list \<Rightarrow> date list \<Rightarrow> warehouse" where
  "warehouse_with st ks ds =
     \<lparr>staging = Some st, dim_instrumento = Some (map instrumento_of ks),
      dim_tempo = Some (map tempo_of ds), fact_movimentacao_diaria = None, fact_id_seq = 0,
      volatility_weekly = None\<rparr>"

text \<open>Ticker \<open>XYZ\<close> with closes 10, 12 and 9 on three consecutive dates.\<close>

definition xyz_rows :: "staging_row list" where
  "xyz_rows = [clean_row ''XYZ'' 19359 10, clean_row ''XYZ'' 19360 12, clean_row ''XYZ'' 19361 9]"

definition xyz_warehouse :: warehouse where
  "xyz_warehouse = warehouse_with xyz_rows [''XYZ''] [19359, 19360, 19361]"

text \<open>Two rows of one ticker on one date.\<close>

definition same_day_rows :: "staging_row list" where
  "same_day_rows = [clean_row ''XYZ'' 19359 10, clean_row ''XYZ'' 19359 12]"

definition same_day_warehouse :: warehouse where
  "same_day_warehouse = warehouse_with same_day_rows [''XYZ''] [19359]"

text \<open>One row on the first date, two rows on the second.\<close>

definition twice_a_day_rows :: "staging_row list" where
  "twice_a_day_rows =
     [clean_row ''XYZ'' 19359 10, clean_row ''XYZ'' 19360 12, clean_row ''XYZ'' 19360 15]"

definition twice_a_day_warehouse :: warehouse where
  "twice_a_day_warehouse = warehouse_with twice_a_day_rows [''XYZ''] [19359, 19360]"

text \<open>
  The warehouse the tasks after the quality check leave, whichever of them fails:
  \<open>create_dim_tables\<close>, \<open>load_fact_table\<close>, \<open>calculate_volatility_view\<close> (the report and the
  log write to no relation).
\<close>

definition after_check :: "(numeric \<Rightarrow> numeric) \<Rightarrow> warehouse \<Rightarrow> warehouse" where
  "after_check sq w =
     (case create_dim_tables w of
        Inl e \<Rightarrow> w
      | Inr wc \<Rightarrow>
          (case load_fact_table wc of
             Inl e \<Rightarrow> wc
           | Inr wl \<Rightarrow>
               (case calculate_volatility_view sq wl of
                  Inl e \<Rightarrow> wl
                | Inr wv \<Rightarrow> wv)))"

text \<open>A fact row without its \<open>id\<close>.\<close>

definition without_id :: "fact_row \<Rightarrow> staging_row \<times> numeric option" where
  "without_id f = (staging_of f, variacao_diaria f)"

text \<open>One ticker on 750,000 consecutive dates, every close 10.\<close>

definition long_rows :: "staging_row list" where
  "long_rows = map (\<lambda>i. clean_row ''XYZ'' (int i) 10) [0..<750000]"

section \<open>Properties\<close>

subsection \<open>The quality check\<close>

lemma sql_and_Some: "sql_and (Some a) (Some b) = Some (a \<and> b)"
  by (cases a; cases b) simp_all

lemma sum_list_null_flag:
  "sum_list (map null_flag rows) =
     int (length (filter (\<lambda>r. s_close r = None \<or> s_date r = None) rows))"
  by (induction rows) (simp_all add: null_flag_def)

text \<open>
  The query never yields NULL: over an empty staging \<open>SUM\<close> is NULL, but \<open>COUNT(*) = 750000\<close>
  is false there, and \<open>false AND NULL\<close> is false.
\<close>

lemma quality_query_value:
  "quality_query rows =
     Some (length rows = 750000 \<and>
           length (filter (\<lambda>r. s_close r = None \<or> s_date r = None) rows) = 0)"
proof (cases rows)
  case Nil
  then show ?thesis by (simp add: quality_query_def sql_sum_def)
next
  case (Cons r rs)
  have "sql_sum (map null_flag rows) = Some (sum_list (map null_flag rows))"
    using Cons by (simp add: sql_sum_def)
  then show ?thesis
    unfolding quality_query_def
    by (cases "int (length rows) = 750000") (simp_all add: sum_list_null_flag sql_and_Some)
qed

text \<open>
  C5 (as amended). The check's predicate is true if and only if staging holds exactly
  750,000 rows and no row has a null \<open>date\<close> or \<open>close\<close>. The count is the literal of the
  SQL text: the predicate takes no expected row count.
\<close>

theorem quality_check_iff:
  "check_passes (quality_query rows) =
     (length rows = 750000 \<and>
      length (filter (\<lambda>r. s_close r = None \<or> s_date r = None) rows) = 0)"
  by (simp add: check_passes_def quality_query_value)

text \<open>C5, at 750,000 copies of a row without nulls: the check passes.\<close>

theorem quality_check_iff_witness:
  "check_passes (quality_query (replicate 750000 (clean_row ''XYZ'' 19358 10)))
   \<and> length (replicate 750000 (clean_row ''XYZ'' 19358 10)) = 750000"
  using quality_check_iff [of "replicate 750000 (clean_row ''XYZ'' 19358 10)"]
  by (simp add: clean_row_def)

text \<open>
  C5 as stated fails where the expected row count is not 750,000: a source of two rows,
  both without nulls, staged in full, does not pass.
\<close>

theorem quality_check_count_fixed:
  "\<not> (check_passes (quality_query [clean_row ''XYZ'' 19358 10, clean_row ''XYZ'' 19359 12])
       = (length [clean_row ''XYZ'' 19358 10, clean_row ''XYZ'' 19359 12] = 2
          \<and> length (filter (\<lambda>r. s_close r = None \<or> s_date r = None)
                [clean_row ''XYZ'' 19358 10, clean_row ''XYZ'' 19359 12]) = 0))"
  by (simp add: check_passes_def quality_query_def sql_sum_def null_flag_def clean_row_def)

subsection \<open>Attempts and the chain\<close>

lemma attempt_Inl: "act s = Inl e \<Longrightarrow> attempt n act s = (Suc n, Inl e)"
  by (induction n) simp_all

lemma attempt_Inr: "act s = Inr s' \<Longrightarrow> attempt n act s = (1, Inr s')"
  by (cases n) simp_all

lemma run_chain_step:
  "run_chain (t # ts) s =
     (case execute t s of
        Inr s' \<Rightarrow>
          (case run_chain ts s' of
             (tis, s'') \<Rightarrow>
               (\<lparr>ti_task_id = task_id t, ti_state = Success, try_number = 1\<rparr> # tis, s''))
      | Inl e \<Rightarrow>
          (\<lparr>ti_task_id = task_id t, ti_state = Failed, try_number = Suc (retries t)\<rparr>
             # map (\<lambda>u. \<lparr>ti_task_id = task_id u, ti_state = Upstream_failed, try_number = 0\<rparr>) ts,
           s))"
  by (cases "execute t s") (simp_all add: attempt_Inl attempt_Inr)

text \<open>The run that does not find the file.\<close>

lemma run_no_file:
  assumes "fs csv_path = None"
  shows "run_pipeline sq fmt fs w =
     \<lparr>run_status = Run_failed,
      task_instances =
        [\<lparr>ti_task_id = ''setup_staging_table'', ti_state = Success, try_number = 1\<rparr>,
         \<lparr>ti_task_id = ''locate_csv'', ti_state = Failed, try_number = 4\<rparr>,
         \<lparr>ti_task_id = ''load_staging'', ti_state = Upstream_failed, try_number = 0\<rparr>,
         \<lparr>ti_task_id = ''run_data_quality_checks'', ti_state = Upstream_failed, try_number = 0\<rparr>,
         \<lparr>ti_task_id = ''create_dim_tables'', ti_state = Upstream_failed, try_number = 0\<rparr>,
         \<lparr>ti_task_id = ''load_fact_table'', ti_state = Upstream_failed, try_number = 0\<rparr>,
         \<lparr>ti_task_id = ''calculate_volatility_view'', ti_state = Upstream_failed, try_number = 0\<rparr>,
         \<lparr>ti_task_id = ''report_top_volatility'', ti_state = Upstream_failed, try_number = 0\<rparr>,
         \<lparr>ti_task_id = ''log_execution_summary'', ti_state = Upstream_failed, try_number = 0\<rparr>],
      final = \<lparr>db = w\<lparr>staging := Some (rows_of (staging w))\<rparr>, xcom = Map.empty, logged = []\<rparr>\<rparr>"
  using assms
  by (simp add: run_pipeline_def pipeline_def run_chain_step postgres_operator_def
      setup_staging_table_def locate_csv_def default_retries_def del: run_chain.simps)

text \<open>The run whose staged rows do not pass the quality check.\<close>

lemma run_check_failed:
  assumes "fs csv_path = Some rows" and "\<not> check_passes (quality_query rows)"
  shows "run_pipeline sq fmt fs w =
     \<lparr>run_status = Run_failed,
      task_instances =
        [\<lparr>ti_task_id = ''setup_staging_table'', ti_state = Success, try_number = 1\<rparr>,
         \<lparr>ti_task_id = ''locate_csv'', ti_state = Success, try_number = 1\<rparr>,
         \<lparr>ti_task_id = ''load_staging'', ti_state = Success, try_number = 1\<rparr>,
         \<lparr>ti_task_id = ''run_data_quality_checks'', ti_state = Failed, try_number = 4\<rparr>,
         \<lparr>ti_task_id = ''create_dim_tables'', ti_state = Upstream_failed, try_number = 0\<rparr>,
         \<lparr>ti_task_id = ''load_fact_table'', ti_state = Upstream_failed, try_number = 0\<rparr>,
         \<lparr>ti_task_id = ''calculate_volatility_view'', ti_state = Upstream_failed, try_number = 0\<rparr>,
         \<lparr>ti_task_id = ''report_top_volatility'', ti_state = Upstream_failed, try_number = 0\<rparr>,
         \<lparr>ti_task_id = ''log_execution_summary'', ti_state = Upstream_failed, try_number = 0\<rparr>],
      final = \<lparr>db = w\<lparr>staging := Some rows\<rparr>,
               xcom = Map.empty((''locate_csv'', ''csv_path'') \<mapsto> csv_path), logged = []\<rparr>\<rparr>"
  using assms
  by (simp add: run_pipeline_def pipeline_def run_chain_step postgres_operator_def
      sql_check_operator_def setup_staging_table_def locate_csv_def load_staging_def
      run_data_quality_checks_def default_retries_def del: run_chain.simps)

subsection \<open>A failed quality check\<close>

text \<open>
  C3 (as amended). In every run whose staged rows make the check's predicate false, the
  task \<open>run_data_quality_checks\<close> is attempted four times (the first attempt and the three
  retries of \<open>default_args\<close>) and then ends failed; the run ends failed, and none of the
  five tasks after it is ever attempted.
\<close>

theorem quality_check_retried:
  assumes "fs csv_path = Some rows" and "\<not> check_passes (quality_query rows)"
  shows "tries_of ''run_data_quality_checks'' (run_pipeline sq fmt fs w) = [4]
       \<and> state_of ''run_data_quality_checks'' (run_pipeline sq fmt fs w) = [Failed]
       \<and> run_status (run_pipeline sq fmt fs w) = Run_failed
       \<and> map ti_state (drop 4 (task_instances (run_pipeline sq fmt fs w)))
           = replicate 5 Upstream_failed
       \<and> map try_number (drop 4 (task_instances (run_pipeline sq fmt fs w))) = replicate 5 0"
  by (simp add: run_check_failed [of fs rows, OF assms] tries_of_def state_of_def numeral_eq_Suc)

text \<open>C3, at a file of one row: the hypotheses hold and the check is attempted four times.\<close>

theorem quality_check_retried_witness:
  "csv_with [clean_row ''XYZ'' 19358 10] csv_path = Some [clean_row ''XYZ'' 19358 10]
   \<and> \<not> check_passes (quality_query [clean_row ''XYZ'' 19358 10])
   \<and> tries_of ''run_data_quality_checks''
        (run_pipeline sqrt_stub format_stub (csv_with [clean_row ''XYZ'' 19358 10]) empty_warehouse)
      = [4]
   \<and> run_status
        (run_pipeline sqrt_stub format_stub (csv_with [clean_row ''XYZ'' 19358 10]) empty_warehouse)
      = Run_failed"
  using quality_check_retried [of "csv_with [clean_row ''XYZ'' 19358 10]"
      "[clean_row ''XYZ'' 19358 10]" sqrt_stub format_stub empty_warehouse]
  by (simp add: csv_with_def quality_query_value check_passes_def)

text \<open>
  C3 as stated fails: with a staging of one row the predicate is false, and the check is
  not attempted exactly once.
\<close>

theorem quality_check_not_single_attempt:
  "\<not> check_passes (quality_query [clean_row ''XYZ'' 19358 10])
   \<and> tries_of ''run_data_quality_checks''
        (run_pipeline sqrt_stub format_stub (csv_with [clean_row ''XYZ'' 19358 10]) empty_warehouse)
      \<noteq> [1]"
proof -
  have c: "\<not> check_passes (quality_query [clean_row ''XYZ'' 19358 10])"
    by (simp add: quality_query_value check_passes_def)
  have f: "csv_with [clean_row ''XYZ'' 19358 10] csv_path = Some [clean_row ''XYZ'' 19358 10]"
    by (simp add: csv_with_def)
  show ?thesis
    using c by (simp add: run_check_failed [of "csv_with [clean_row ''XYZ'' 19358 10]" "[clean_row ''XYZ'' 19358 10]", OF f c] tries_of_def)
qed

text \<open>
  C6. In every run whose staged rows make the check's predicate false, the run ends
  failed and the relations downstream of the check are as they were before the run: the
  two dimensions, the fact table with its sequence, and the weekly volatility.
\<close>

theorem failed_check_leaves_downstream:
  assumes "fs csv_path = Some rows" and "\<not> check_passes (quality_query rows)"
  shows "run_status (run_pipeline sq fmt fs w) = Run_failed
       \<and> fact_movimentacao_diaria (db (final (run_pipeline sq fmt fs w)))
           = fact_movimentacao_diaria w
       \<and> fact_id_seq (db (final (run_pipeline sq fmt fs w))) = fact_id_seq w
       \<and> volatility_weekly (db (final (run_pipeline sq fmt fs w))) = volatility_weekly w
       \<and> dim_instrumento (db (final (run_pipeline sq fmt fs w))) = dim_instrumento w
       \<and> dim_tempo (db (final (run_pipeline sq fmt fs w))) = dim_tempo w"
  by (simp add: run_check_failed [of fs rows, OF assms])

text \<open>
  C6, at a source of 749,999 rows over the sample warehouse: the check fails, the run
  ends failed, the fact table and the weekly volatility are those of the sample.
\<close>

theorem failed_check_leaves_downstream_witness:
  "csv_with (replicate 749999 (clean_row ''XYZ'' 19358 10)) csv_path
      = Some (replicate 749999 (clean_row ''XYZ'' 19358 10))
   \<and> \<not> check_passes (quality_query (replicate 749999 (clean_row ''XYZ'' 19358 10)))
   \<and> run_status (run_pipeline sqrt_stub format_stub
        (csv_with (replicate 749999 (clean_row ''XYZ'' 19358 10))) sample_warehouse) = Run_failed
   \<and> fact_movimentacao_diaria (db (final (run_pipeline sqrt_stub format_stub
        (csv_with (replicate 749999 (clean_row ''XYZ'' 19358 10))) sample_warehouse)))
      = fact_movimentacao_diaria sample_warehouse
   \<and> volatility_weekly (db (final (run_pipeline sqrt_stub format_stub
        (csv_with (replicate 749999 (clean_row ''XYZ'' 19358 10))) sample_warehouse)))
      = volatility_weekly sample_warehouse"
  using failed_check_leaves_downstream [of "csv_with (replicate 749999 (clean_row ''XYZ'' 19358 10))"
      "replicate 749999 (clean_row ''XYZ'' 19358 10)" sqrt_stub format_stub sample_warehouse]
  by (simp add: csv_with_def quality_query_value check_passes_def)

subsection \<open>A missing source file\<close>

text \<open>
  C4 (as amended). In every run that finds no CSV file, each attempt of \<open>locate_csv\<close>
  raises, the task is attempted four times (the first attempt and the three retries of
  \<open>default_args\<close>) and then ends failed; the run ends failed, none of the seven tasks
  after it is ever attempted, and the warehouse is as \<open>setup_staging_table\<close> left it.
\<close>

theorem locate_csv_retried:
  assumes "fs csv_path = None"
  shows "tries_of ''locate_csv'' (run_pipeline sq fmt fs w) = [4]
       \<and> state_of ''locate_csv'' (run_pipeline sq fmt fs w) = [Failed]
       \<and> run_status (run_pipeline sq fmt fs w) = Run_failed
       \<and> map ti_state (drop 2 (task_instances (run_pipeline sq fmt fs w)))
           = replicate 7 Upstream_failed
       \<and> map try_number (drop 2 (task_instances (run_pipeline sq fmt fs w))) = replicate 7 0
       \<and> db (final (run_pipeline sq fmt fs w)) = w\<lparr>staging := Some (rows_of (staging w))\<rparr>"
  by (simp add: run_no_file [of fs, OF assms] tries_of_def state_of_def numeral_eq_Suc)

text \<open>C4, at a file system without the file: four attempts, a failed run.\<close>

theorem locate_csv_retried_witness:
  "no_csv csv_path = None
   \<and> tries_of ''locate_csv'' (run_pipeline sqrt_stub format_stub no_csv empty_warehouse) = [4]
   \<and> run_status (run_pipeline sqrt_stub format_stub no_csv empty_warehouse) = Run_failed"
  using locate_csv_retried [of no_csv sqrt_stub format_stub empty_warehouse]
  by (simp add: no_csv_def)

text \<open>C4 as stated fails: without the file, \<open>locate_csv\<close> is not attempted exactly once.\<close>

theorem locate_csv_not_single_attempt:
  "no_csv csv_path = None
   \<and> tries_of ''locate_csv'' (run_pipeline sqrt_stub format_stub no_csv empty_warehouse) \<noteq> [1]"
proof -
  have f: "no_csv csv_path = None"
    by (simp add: no_csv_def)
  show ?thesis
    using f by (simp add: run_no_file [of no_csv, OF f] tries_of_def)
qed

subsection \<open>The weekly volatility and the report\<close>

lemma foldl_avg_accum:
  "foldl avg_accum (s, n) vs =
     (s + sum_list (List.map_filter id vs), n + length (List.map_filter id vs))"
proof (induction vs arbitrary: s n)
  case Nil
  show ?case by simp
next
  case (Cons v vs)
  show ?case
    by (cases v) (simp_all add: Cons.IH algebra_simps)
qed

lemma sql_avg_mean: "sql_avg vs = mean (List.map_filter id vs)"
  by (simp add: sql_avg_def foldl_avg_accum mean_def)

lemma map_filter_id_map: "List.map_filter id (map f xs) = List.map_filter f xs"
  by (induction xs) (simp_all split: option.splits)

lemma ticker_averages_mean:
  "ticker_averages rows =
     map (\<lambda>t. (t, mean (List.map_filter vol (filter (\<lambda>r. v_ticker r = t) rows))))
         (remdups (map v_ticker rows))"
  by (simp add: ticker_averages_def sql_avg_mean map_filter_id_map)

lemma filter_eq_distinct:
  "distinct xs \<Longrightarrow> x \<in> set xs \<Longrightarrow> filter (\<lambda>y. y = x) xs = [x]"
  by (induction xs) (auto simp: filter_empty_conv)

lemma stddev_samp_single: "length vs \<le> 1 \<Longrightarrow> stddev_samp sq vs = None"
proof -
  assume a: "length vs \<le> 1"
  have "length (List.map_filter id vs) \<le> length vs"
    by (simp add: List.map_filter_def)
  with a have "length (List.map_filter id vs) \<le> 1" by simp
  then show ?thesis by (simp add: stddev_samp_def Let_def)
qed

text \<open>The view holds one row for each group of non-null daily changes.\<close>

lemma volatility_query_group:
  assumes "k \<in> group_key ` {f \<in> set facts. variacao_diaria f \<noteq> None}"
  shows "filter (\<lambda>r. (v_ticker r, week r) = k) (volatility_query sq facts) =
           [\<lparr>v_ticker = fst k, week = snd k,
             vol = stddev_samp sq (map variacao_diaria
                     (filter (\<lambda>f. group_key f = k)
                        (filter (\<lambda>f. variacao_diaria f \<noteq> None) facts)))\<rparr>]"
proof -
  let ?sel = "filter (\<lambda>f. variacao_diaria f \<noteq> None) facts"
  let ?keys = "remdups (map group_key ?sel)"
  let ?mk = "\<lambda>k. \<lparr>v_ticker = fst k, week = snd k,
                    vol = stddev_samp sq (map variacao_diaria (filter (\<lambda>f. group_key f = k) ?sel))\<rparr>"
  have k: "k \<in> set ?keys" using assms by auto
  have "filter (\<lambda>r. (v_ticker r, week r) = k) (map ?mk ?keys) = map ?mk (filter (\<lambda>y. y = k) ?keys)"
    by (simp add: filter_map comp_def)
  also have "\<dots> = [?mk k]"
    using filter_eq_distinct [OF distinct_remdups k] by simp
  finally show ?thesis by (simp add: volatility_query_def Let_def)
qed

text \<open>
  C10. If exactly one fact row of ticker \<open>t\<close> and week \<open>w\<close> has a non-null daily change, the
  weekly volatility holds exactly one row for \<open>(t, w)\<close>, and its \<open>vol\<close> is null. And the
  average the report computes for a ticker is the arithmetic mean of that ticker's
  non-null \<open>vol\<close> values (null when it has none): null values count neither in the sum
  nor in the divisor.
\<close>

theorem single_change_null_volatility:
  assumes "length (filter (\<lambda>f. variacao_diaria f \<noteq> None \<and> group_key f = (t, w)) facts) = 1"
  shows "filter (\<lambda>r. (v_ticker r, week r) = (t, w)) (volatility_query sq facts)
           = [\<lparr>v_ticker = t, week = w, vol = None\<rparr>]
       \<and> ticker_averages rows =
           map (\<lambda>t'. (t', mean (List.map_filter vol (filter (\<lambda>r. v_ticker r = t') rows))))
               (remdups (map v_ticker rows))"
proof -
  let ?sel = "filter (\<lambda>f. variacao_diaria f \<noteq> None) facts"
  have eq: "filter (\<lambda>f. group_key f = (t, w)) ?sel
              = filter (\<lambda>f. variacao_diaria f \<noteq> None \<and> group_key f = (t, w)) facts"
    by (simp add: conj_commute)
  have "filter (\<lambda>f. variacao_diaria f \<noteq> None \<and> group_key f = (t, w)) facts \<noteq> []"
    using assms by auto
  then obtain f where "f \<in> set facts" "variacao_diaria f \<noteq> None" "group_key f = (t, w)"
    by (auto simp: filter_empty_conv)
  then have k: "(t, w) \<in> group_key ` {f \<in> set facts. variacao_diaria f \<noteq> None}"
    by force
  have "stddev_samp sq (map variacao_diaria (filter (\<lambda>f. group_key f = (t, w)) ?sel)) = None"
    by (rule stddev_samp_single) (simp only: eq assms length_map order_refl)
  with volatility_query_group [OF k, of sq] show ?thesis
    by (simp add: ticker_averages_mean)
qed

text \<open>
  C10, at the two-ticker facts: \<open>AAA\<close> has one daily change in the week of day 19359, its
  row of the view has a null \<open>vol\<close>, and over a view with that row and one of \<open>BBB\<close> the
  averages are null for \<open>AAA\<close> and 5 for \<open>BBB\<close>.
\<close>

theorem single_change_null_volatility_witness:
  "length (filter (\<lambda>f. variacao_diaria f \<noteq> None \<and> group_key f = (Some ''AAA'', Some 19359))
             two_ticker_facts) = 1
   \<and> filter (\<lambda>r. (v_ticker r, week r) = (Some ''AAA'', Some 19359))
        (volatility_query sqrt_stub two_ticker_facts)
      = [\<lparr>v_ticker = Some ''AAA'', week = Some 19359, vol = None\<rparr>]
   \<and> ticker_averages null_first_view = [(Some ''AAA'', None), (Some ''BBB'', Some 5)]"
proof -
  have h: "length (filter (\<lambda>f. variacao_diaria f \<noteq> None \<and> group_key f = (Some ''AAA'', Some 19359))
             two_ticker_facts) = 1"
    by (simp add: two_ticker_facts_def fact_of_def group_key_def date_trunc_week_def)
  have m: "map (\<lambda>t'. (t', mean (List.map_filter vol (filter (\<lambda>r. v_ticker r = t') null_first_view))))
               (remdups (map v_ticker null_first_view))
           = [(Some ''AAA'', None), (Some ''BBB'', Some 5)]"
    by (simp add: null_first_view_def mean_def)
  show ?thesis
    using single_change_null_volatility [OF h, of sqrt_stub null_first_view] h m by simp
qed

text \<open>The report over an empty view: the no-data message, no failure.\<close>

lemma report_empty:
  "volatility_weekly (db rs) = Some [] \<Longrightarrow>
   report_top_volatility fmt rs =
     Inr (rs\<lparr>xcom := (xcom rs)((''report_top_volatility'', ''report_message'') \<mapsto> no_data_message)\<rparr>)"
  by (simp add: report_top_volatility_def top_volatility_query_def ticker_averages_def)

lemma top_null_first: "top_volatility_query null_first_view = [(Some ''AAA'', None)]"
  unfolding null_first_view_def by code_simp

lemma report_after_upstream:
  "fst (run_chain (drop 4 (pipeline sqrt_stub format_stub no_csv))
          \<lparr>db = empty_warehouse\<lparr>staging := Some two_ticker_rows\<rparr>, xcom = Map.empty, logged = []\<rparr>)
   = [\<lparr>ti_task_id = ''create_dim_tables'', ti_state = Success, try_number = 1\<rparr>,
      \<lparr>ti_task_id = ''load_fact_table'', ti_state = Success, try_number = 1\<rparr>,
      \<lparr>ti_task_id = ''calculate_volatility_view'', ti_state = Success, try_number = 1\<rparr>,
      \<lparr>ti_task_id = ''report_top_volatility'', ti_state = Failed, try_number = 4\<rparr>,
      \<lparr>ti_task_id = ''log_execution_summary'', ti_state = Upstream_failed, try_number = 0\<rparr>]"
  by code_simp

text \<open>
  C9 does not hold of the code. Over a view where \<open>AAA\<close> has only a null \<open>vol\<close> and \<open>BBB\<close>
  has \<open>vol\<close> 5, the one row the query returns is \<open>AAA\<close> with a null average (\<open>ORDER BY ...
  DESC\<close> puts NULL first), not \<open>BBB\<close>, the ticker with the highest mean; the message cannot
  be formatted and the task raises. The five tasks after the quality check, run on a
  staging where \<open>AAA\<close> has two days in a week and \<open>BBB\<close> three, end that way.
\<close>

theorem report_null_average_first:
  "top_volatility_query null_first_view = [(Some ''AAA'', None)]
   \<and> ticker_averages null_first_view = [(Some ''AAA'', None), (Some ''BBB'', Some 5)]
   \<and> report_top_volatility format_stub
        \<lparr>db = empty_warehouse\<lparr>volatility_weekly := Some null_first_view\<rparr>,
         xcom = Map.empty, logged = []\<rparr> = Inl TypeError
   \<and> map ti_state (fst (run_chain (drop 4 (pipeline sqrt_stub format_stub no_csv))
          \<lparr>db = empty_warehouse\<lparr>staging := Some two_ticker_rows\<rparr>, xcom = Map.empty, logged = []\<rparr>))
      = [Success, Success, Success, Failed, Upstream_failed]"
proof -
  have a: "ticker_averages null_first_view = [(Some ''AAA'', None), (Some ''BBB'', Some 5)]"
    unfolding null_first_view_def by code_simp
  have r: "report_top_volatility format_stub
        \<lparr>db = empty_warehouse\<lparr>volatility_weekly := Some null_first_view\<rparr>,
         xcom = Map.empty, logged = []\<rparr> = Inl TypeError"
    by (simp add: report_top_volatility_def top_null_first)
  show ?thesis
    by (simp add: top_null_first a r report_after_upstream)
qed

subsection \<open>The dimensions\<close>

lemma dims_grow_refl: "dims_grow w w"
  by (simp add: dims_grow_def)

lemma dims_grow_trans: "dims_grow a b \<Longrightarrow> dims_grow b c \<Longrightarrow> dims_grow a c"
  unfolding dims_grow_def by (meson prefix_order.trans)

lemma insert_instrumentos_grows:
  "insert_instrumentos tbl xs = Inr tbl' \<Longrightarrow>
     prefix tbl tbl' \<and> (distinct (map ticker tbl) \<longrightarrow> distinct (map ticker tbl'))"
proof (induction tbl xs rule: insert_instrumentos.induct)
  case (1 tbl)
  then show ?case by simp
next
  case (2 tbl n t xs)
  then show ?case by simp
next
  case (3 tbl k n t xs)
  show ?case
  proof (cases "k \<in> set (map ticker tbl)")
    case True
    with 3 show ?thesis by simp
  next
    case False
    with 3 have "prefix (tbl @ [\<lparr>ticker = k, nome_ativo = n, tipo_ativo = t\<rparr>]) tbl'"
      and "distinct (map ticker (tbl @ [\<lparr>ticker = k, nome_ativo = n, tipo_ativo = t\<rparr>]))
             \<longrightarrow> distinct (map ticker tbl')"
      by simp_all
    with False show ?thesis
      by (auto dest: append_prefixD)
  qed
qed

lemma insert_tempos_grows:
  "insert_tempos tbl xs = Inr tbl' \<Longrightarrow>
     prefix tbl tbl' \<and> (distinct (map data_id tbl) \<longrightarrow> distinct (map data_id tbl'))"
proof (induction tbl xs rule: insert_tempos.induct)
  case (1 tbl)
  then show ?case by simp
next
  case (2 tbl y m w xs)
  then show ?case by simp
next
  case (3 tbl d y m w xs)
  show ?case
  proof (cases "d \<in> set (map data_id tbl)")
    case True
    with 3 show ?thesis by simp
  next
    case False
    with 3 have "prefix (tbl @ [\<lparr>data_id = d, ano = y, mes = m, dia_da_semana = w\<rparr>]) tbl'"
      and "distinct (map data_id (tbl @ [\<lparr>data_id = d, ano = y, mes = m, dia_da_semana = w\<rparr>]))
             \<longrightarrow> distinct (map data_id tbl')"
      by simp_all
    with False show ?thesis
      by (auto dest: append_prefixD)
  qed
qed

lemma create_dim_tables_grows: "create_dim_tables w = Inr w' \<Longrightarrow> dims_grow w w'"
  unfolding create_dim_tables_def dims_grow_def
  by (auto split: option.splits sum.splits simp: rows_of_def
      dest!: insert_instrumentos_grows insert_tempos_grows)

text \<open>Only \<open>create_dim_tables\<close> writes to the dimensions.\<close>

lemma pipeline_task_grows:
  assumes "t \<in> set (pipeline sq fmt fs)" and "execute t s = Inr s'"
  shows "dims_grow (db s) (db s')"
proof -
  have other: "dims_grow (db s) (db s')" if "dim_instrumento (db s') = dim_instrumento (db s)"
      and "dim_tempo (db s') = dim_tempo (db s)"
    using that by (simp add: dims_grow_def)
  from assms(1) consider
      "execute t = postgres_operator setup_staging_table" | "execute t = locate_csv fs"
    | "execute t = load_staging fs" | "execute t = sql_check_operator run_data_quality_checks"
    | "execute t = postgres_operator create_dim_tables"
    | "execute t = postgres_operator load_fact_table"
    | "execute t = postgres_operator (calculate_volatility_view sq)"
    | "execute t = report_top_volatility fmt"
    | "execute t = log_execution_summary"
    by (auto simp: pipeline_def)
  then show ?thesis
  proof cases
    case 1
    with assms(2) show ?thesis
      by (intro other) (auto simp: postgres_operator_def setup_staging_table_def)
  next
    case 2
    with assms(2) show ?thesis
      by (intro other) (auto simp: locate_csv_def split: if_splits)
  next
    case 3
    with assms(2) show ?thesis
      by (intro other) (auto simp: load_staging_def split: option.splits)
  next
    case 4
    with assms(2) show ?thesis
      by (intro other) (auto simp: sql_check_operator_def split: sum.splits if_splits)
  next
    case 5
    with assms(2) show ?thesis
      by (auto simp: postgres_operator_def split: sum.splits dest: create_dim_tables_grows)
  next
    case 6
    with assms(2) show ?thesis
      by (intro other)
        (auto simp: postgres_operator_def load_fact_table_def Let_def
           split: option.splits sum.splits if_splits)
  next
    case 7
    with assms(2) show ?thesis
      by (intro other)
        (auto simp: postgres_operator_def calculate_volatility_view_def
           split: option.splits sum.splits)
  next
    case 8
    with assms(2) show ?thesis
      by (intro other)
        (auto simp: report_top_volatility_def split: option.splits list.splits)
  next
    case 9
    with assms(2) show ?thesis by (intro other) (auto simp: log_execution_summary_def)
  qed
qed

lemma run_chain_grows:
  assumes "\<And>t s s'. t \<in> set ts \<Longrightarrow> execute t s = Inr s' \<Longrightarrow> dims_grow (db s) (db s')"
  shows "dims_grow (db s) (db (snd (run_chain ts s)))"
  using assms
proof (induction ts arbitrary: s)
  case Nil
  show ?case by (simp add: dims_grow_refl)
next
  case (Cons t ts)
  show ?case
  proof (cases "execute t s")
    case (Inl e)
    then show ?thesis by (simp add: run_chain_step dims_grow_refl del: run_chain.simps)
  next
    case (Inr s')
    have a: "dims_grow (db s) (db s')"
      by (rule Cons.prems [of t]) (simp_all add: Inr)
    have b: "dims_grow (db s') (db (snd (run_chain ts s')))"
      by (rule Cons.IH) (rule Cons.prems, simp_all)
    show ?thesis
      using dims_grow_trans [OF a b] Inr
      by (simp add: run_chain_step split_beta del: run_chain.simps)
  qed
qed

lemma run_pipeline_grows: "dims_grow w (db (final (run_pipeline sq fmt fs w)))"
  using run_chain_grows [of "pipeline sq fmt fs" "\<lparr>db = w, xcom = Map.empty, logged = []\<rparr>"]
    pipeline_task_grows [of _ sq fmt fs]
  by (simp add: run_pipeline_def split_beta)

lemma run_many_grows: "dims_grow w (run_many sq fmt fss w)"
proof (induction fss arbitrary: w)
  case Nil
  show ?case by (simp add: dims_grow_refl)
next
  case (Cons fs fss)
  show ?case
    using dims_grow_trans [OF run_pipeline_grows Cons.IH] by simp
qed

lemma run_many_append:
  "run_many sq fmt (fss @ later) w = run_many sq fmt later (run_many sq fmt fss w)"
  by (induction fss arbitrary: w) simp_all

text \<open>
  C8. Start from a warehouse with no relation yet and run the pipeline any number of
  times, each run with its own source file (or none). Then \<open>dim_instrumento\<close> has no two
  rows with the same \<open>ticker\<close> and \<open>dim_tempo\<close> no two rows with the same \<open>data_id\<close>; and
  after any further runs both dimensions still start with the very rows they held
  before, so no later run changes or removes a row once it is inserted.
\<close>

theorem dimensions_unique_and_stable:
  "distinct (map ticker (rows_of (dim_instrumento (run_many sq fmt fss empty_warehouse))))
   \<and> distinct (map data_id (rows_of (dim_tempo (run_many sq fmt fss empty_warehouse))))
   \<and> prefix (rows_of (dim_instrumento (run_many sq fmt fss empty_warehouse)))
        (rows_of (dim_instrumento (run_many sq fmt (fss @ later) empty_warehouse)))
   \<and> prefix (rows_of (dim_tempo (run_many sq fmt fss empty_warehouse)))
        (rows_of (dim_tempo (run_many sq fmt (fss @ later) empty_warehouse)))"
proof -
  have "dims_grow empty_warehouse (run_many sq fmt fss empty_warehouse)"
    by (rule run_many_grows)
  moreover have "dims_grow (run_many sq fmt fss empty_warehouse)
      (run_many sq fmt later (run_many sq fmt fss empty_warehouse))"
    by (rule run_many_grows)
  ultimately show ?thesis
    by (simp add: dims_grow_def run_many_append empty_warehouse_def rows_of_def)
qed

subsection \<open>The window of the fact table\<close>

lemma variacao_expr_total: "variacao_expr c lag = Inr (percent_change c lag)"
  by (cases c; cases lag) (simp_all add: variacao_expr_def percent_change_def)

lemma collect_Inr: "collect (map Inr xs) = Inr xs"
  by (induction xs) simp_all

lemma fact_select_value:
  "fact_select st =
     Inr (map (\<lambda>(r, lag). (r, percent_change (s_close r) lag))
            (concat (map lag_close (window_partitions st))))"
proof -
  have h: "map (\<lambda>(r, lag). case variacao_expr (s_close r) lag of Inl e \<Rightarrow> Inl e | Inr v \<Rightarrow> Inr (r, v)) xs
        = map Inr (map (\<lambda>(r, lag). (r, percent_change (s_close r) lag)) xs)" for xs
    by (simp add: variacao_expr_total split_beta)
  show ?thesis
    unfolding fact_select_def by (simp only: h collect_Inr)
qed

text \<open>Sorted lists with distinct keys: the elements below the i-th are the first i.\<close>

lemma filter_less_take:
  fixes key :: "'a \<Rightarrow> 'k::linorder"
  assumes "sorted (map key p)" and "distinct (map key p)" and "i < length p"
  shows "filter (\<lambda>q. key q < key (p ! i)) p = take i p"
proof -
  have lt: "key (p ! a) < key (p ! b)" if "a < b" "b < length p" for a b
  proof -
    have "key (p ! a) \<le> key (p ! b)"
      using assms(1) that by (simp add: sorted_iff_nth_mono)
    moreover have "key (p ! a) \<noteq> key (p ! b)"
      using assms(2) that by (simp add: distinct_conv_nth)
    ultimately show ?thesis by simp
  qed
  have "filter (\<lambda>q. key q < key (p ! i)) (take i p) = take i p"
  proof (rule filter_True, clarify)
    fix q assume "q \<in> set (take i p)"
    then obtain a where "a < i" "q = p ! a"
      using assms(3) by (auto simp: in_set_conv_nth)
    then show "key q < key (p ! i)" using lt assms(3) by simp
  qed
  moreover have "filter (\<lambda>q. key q < key (p ! i)) (drop i p) = []"
  proof (rule filter_False, clarify)
    fix q assume "q \<in> set (drop i p)" and l: "key q < key (p ! i)"
    then obtain b where "b < length (drop i p)" "q = drop i p ! b"
      by (auto simp: in_set_conv_nth)
    then have a: "i + b < length p" "q = p ! (i + b)"
      by simp_all
    have "key (p ! i) \<le> key (p ! (i + b))"
      using assms(1) a by (simp add: sorted_iff_nth_mono)
    with l a show False by simp
  qed
  ultimately have "filter (\<lambda>q. key q < key (p ! i)) (take i p @ drop i p) = take i p"
    by (simp only: filter_append append_Nil2)
  then show ?thesis by (simp only: append_take_drop_id)
qed

lemma case_last: "xs \<noteq> [] \<Longrightarrow> (case xs of [] \<Rightarrow> a | y # ys \<Rightarrow> f (last (y # ys))) = f (last xs)"
  by (cases xs) simp_all

lemma lag_close_nth:
  assumes "(r, lag) \<in> set (lag_close p)"
  obtains i where "i < length p" "r = p ! i"
    "lag = (case take i p of [] \<Rightarrow> None | ps \<Rightarrow> s_close (last ps))"
proof -
  from assms obtain i where i: "i < length p" "r = p ! i" "lag = (None # map s_close p) ! i"
    by (auto simp: lag_close_def in_set_zip)
  have "(None # map s_close p) ! i = (case take i p of [] \<Rightarrow> None | ps \<Rightarrow> s_close (last ps))"
  proof (cases i)
    case 0
    then show ?thesis by simp
  next
    case (Suc j)
    with i have "take i p \<noteq> []" by auto
    moreover have "last (take i p) = p ! j"
      using i Suc by (simp add: take_Suc_conv_app_nth)
    ultimately have "(case take i p of [] \<Rightarrow> None | ps \<Rightarrow> s_close (last ps)) = s_close (p ! j)"
      using case_last [of "take i p" None s_close] by simp
    then show ?thesis using Suc i(1) by simp
  qed
  with i that show thesis by simp
qed


lemma date_key_less: "a \<noteq> None \<Longrightarrow> b \<noteq> None \<Longrightarrow> (date_key a < date_key b) = before a b"
  by (cases a; cases b) (simp_all add: date_key_def)

lemma date_key_inj: "date_key a = date_key b \<Longrightarrow> a \<noteq> None \<Longrightarrow> b \<noteq> None \<Longrightarrow> a = b"
  by (cases a; cases b) (simp_all add: date_key_def)

lemma partition_keys_distinct:
  assumes "no_null_date_close st" and "one_row_per_day st"
  shows "distinct (map (\<lambda>q. date_key (s_date q))
           (sort_key (\<lambda>q. date_key (s_date q)) (filter (\<lambda>q. s_symbol q = k) st)))"
proof -
  let ?p = "filter (\<lambda>q. s_symbol q = k) st"
  have d: "distinct st" and inj: "inj_on (\<lambda>r. (s_symbol r, s_date r)) (set st)"
    using assms(2) by (simp_all add: one_row_per_day_def distinct_map)
  have nn: "s_date q \<noteq> None" if "q \<in> set st" for q
    using assms(1) that by (simp add: no_null_date_close_def list_all_iff)
  have "inj_on (\<lambda>q. date_key (s_date q)) (set ?p)"
  proof (rule inj_onI)
    fix a b assume a: "a \<in> set ?p" and b: "b \<in> set ?p"
      and e: "date_key (s_date a) = date_key (s_date b)"
    then have "s_date a = s_date b"
      using nn by (auto dest: date_key_inj)
    moreover have "s_symbol a = s_symbol b" using a b by simp
    ultimately show "a = b"
      using inj a b by (auto dest: inj_onD)
  qed
  then show ?thesis
    using d by (simp add: distinct_map)
qed

lemma partition_lag:
  assumes "no_null_date_close st" and "one_row_per_day st"
    and "(r, lag) \<in> set (lag_close (sort_key (\<lambda>q. date_key (s_date q))
                                        (filter (\<lambda>q. s_symbol q = k) st)))"
  shows "r \<in> set st \<and> s_symbol r = k \<and> lag = previous_close st k (s_date r)"
proof -
  let ?dk = "\<lambda>q. date_key (s_date q)"
  let ?p = "sort_key ?dk (filter (\<lambda>q. s_symbol q = k) st)"
  from assms(3) obtain i where i: "i < length ?p" "r = ?p ! i"
      and lag: "lag = (case take i ?p of [] \<Rightarrow> None | ps \<Rightarrow> s_close (last ps))"
    by (rule lag_close_nth)
  have "r \<in> set ?p" unfolding i(2) by (rule nth_mem) (rule i(1))
  then have r: "r \<in> set st" "s_symbol r = k" by simp_all
  have nn: "s_date q \<noteq> None" if "q \<in> set st" for q
    using assms(1) that by (simp add: no_null_date_close_def list_all_iff)
  have "take i ?p = filter (\<lambda>q. ?dk q < ?dk (?p ! i)) ?p"
    using filter_less_take [of ?dk ?p i] partition_keys_distinct [OF assms(1,2)] i(1)
    by simp
  also have "\<dots> = sort_key ?dk (filter (\<lambda>q. ?dk q < ?dk r) (filter (\<lambda>q. s_symbol q = k) st))"
    using i(2) by (simp add: filter_sort)
  also have "filter (\<lambda>q. ?dk q < ?dk r) (filter (\<lambda>q. s_symbol q = k) st)
             = previous_rows st k (s_date r)"
    unfolding previous_rows_def filter_filter
    by (rule filter_cong) (use nn r in \<open>auto simp: date_key_less\<close>)
  finally have "take i ?p = sort_key ?dk (previous_rows st k (s_date r))" .
  with lag have "lag = previous_close st k (s_date r)"
    by (simp add: previous_close_def)
  with r show ?thesis by simp
qed

subsection \<open>The rows of the fact table\<close>

lemma window_lag:
  assumes "no_null_date_close st" and "one_row_per_day st"
    and "(r, lag) \<in> set (concat (map lag_close (window_partitions st)))"
  shows "r \<in> set st \<and> lag = previous_close st (s_symbol r) (s_date r)"
proof -
  from assms(3) obtain k where
    "(r, lag) \<in> set (lag_close (sort_key (\<lambda>q. date_key (s_date q))
                                    (filter (\<lambda>q. s_symbol q = k) st)))"
    by (auto simp: window_partitions_def)
  from partition_lag [OF assms(1,2) this] show ?thesis by simp
qed

lemma map_fst_lag_close: "map fst (lag_close p) = p"
  by (simp add: lag_close_def map_fst_zip_take)

lemma window_covers: "fst ` set (concat (map lag_close (window_partitions st))) = set st"
proof -
  have "fst ` set (concat (map lag_close (window_partitions st)))
          = set (concat (map (\<lambda>p. map fst (lag_close p)) (window_partitions st)))"
    by (simp add: image_UN)
  also have "\<dots> = set (concat (window_partitions st))"
    by (simp only: map_fst_lag_close map_ident)
  also have "\<dots> = set st"
    by (auto simp: window_partitions_def)
  finally show ?thesis .
qed

lemma staging_of_insert_facts:
  "map (\<lambda>f. (staging_of f, variacao_diaria f)) (insert_facts sq sel) = sel"
  by (induction sq sel rule: insert_facts.induct) (simp_all add: staging_of_def)

lemma load_fact_table_rows:
  assumes "load_fact_table w = Inr w'" and "staging w = Some st"
  shows "map (\<lambda>f. (staging_of f, variacao_diaria f)) (rows_of (fact_movimentacao_diaria w'))
           = map (\<lambda>(r, lag). (r, percent_change (s_close r) lag))
                 (concat (map lag_close (window_partitions st)))"
  using assms
  by (auto simp: load_fact_table_def fact_select_value Let_def rows_of_def
      staging_of_insert_facts split: option.splits if_splits)

lemma fact_row_change:
  assumes "load_fact_table w = Inr w'" and "staging w = Some st"
    and "no_null_date_close st" and "one_row_per_day st"
    and "f \<in> set (rows_of (fact_movimentacao_diaria w'))"
  shows "staging_of f \<in> set st
       \<and> variacao_diaria f
           = percent_change (f_close f) (previous_close st (f_ticker f) (f_data_id f))"
proof -
  let ?win = "concat (map lag_close (window_partitions st))"
  have "(staging_of f, variacao_diaria f)
          \<in> set (map (\<lambda>f. (staging_of f, variacao_diaria f)) (rows_of (fact_movimentacao_diaria w')))"
    using assms(5) by (simp only: set_map) (rule imageI)
  then have "(staging_of f, variacao_diaria f)
          \<in> set (map (\<lambda>(r, lag). (r, percent_change (s_close r) lag)) ?win)"
    by (simp only: load_fact_table_rows [OF assms(1,2)])
  then obtain lag where l: "(staging_of f, lag) \<in> set ?win"
      and v: "variacao_diaria f = percent_change (s_close (staging_of f)) lag"
    by auto
  from window_lag [OF assms(3,4) l] v show ?thesis
    by (simp add: staging_of_def)
qed

lemma staging_row_has_fact:
  assumes "load_fact_table w = Inr w'" and "staging w = Some st" and "r \<in> set st"
  shows "r \<in> staging_of ` set (rows_of (fact_movimentacao_diaria w'))"
proof -
  let ?win = "concat (map lag_close (window_partitions st))"
  have "staging_of ` set (rows_of (fact_movimentacao_diaria w'))
          = fst ` set (map (\<lambda>f. (staging_of f, variacao_diaria f)) (rows_of (fact_movimentacao_diaria w')))"
    by (simp add: image_image)
  also have "\<dots> = fst ` set ?win"
    by (simp only: load_fact_table_rows [OF assms(1,2)]) (force simp: image_image split_beta)
  finally show ?thesis
    using assms(3) by (simp only: window_covers)
qed

lemma previous_close_None:
  assumes "no_null_date_close st"
  shows "(previous_close st k d = None) = (previous_rows st k d = [])"
proof (cases "previous_rows st k d = []")
  case True
  then show ?thesis by (simp add: previous_close_def)
next
  case False
  let ?ps = "sort_key (\<lambda>q. date_key (s_date q)) (previous_rows st k d)"
  have ne: "?ps \<noteq> []"
    using False by (metis length_sort length_0_conv)
  then have "last ?ps \<in> set ?ps" by (rule last_in_set)
  then have "last ?ps \<in> set st" by (simp add: previous_rows_def)
  then have "s_close (last ?ps) \<noteq> None"
    using assms by (simp add: no_null_date_close_def list_all_iff)
  moreover have "previous_close st k d = s_close (last ?ps)"
    using case_last [OF ne, of None s_close] by (simp add: previous_close_def)
  ultimately show ?thesis using False by simp
qed


text \<open>What the quality check lets through has no null \<open>date\<close> or \<open>close\<close>.\<close>

lemma check_passes_no_null: "check_passes (quality_query st) \<Longrightarrow> no_null_date_close st"
  by (auto simp: check_passes_def quality_query_value no_null_date_close_def list_all_iff
      filter_empty_conv)

subsection \<open>The daily change\<close>

lemma xyz_dims: "create_dim_tables (empty_warehouse\<lparr>staging := Some xyz_rows\<rparr>) = Inr (xyz_warehouse)"
  by code_simp

lemma xyz_loaded:
  "load_fact_table xyz_warehouse =
     Inr (xyz_warehouse\<lparr>fact_movimentacao_diaria :=
             Some [fact_of 1 ''XYZ'' 19359 10 None, fact_of 2 ''XYZ'' 19360 12 (Some 20),
                   fact_of 3 ''XYZ'' 19361 9 (Some (- 25))],
           fact_id_seq := 3\<rparr>)"
  by code_simp

lemma same_day_loaded:
  "load_fact_table same_day_warehouse =
     Inr (same_day_warehouse\<lparr>fact_movimentacao_diaria :=
             Some [fact_of 1 ''XYZ'' 19359 10 None, fact_of 2 ''XYZ'' 19359 12 (Some 20)],
           fact_id_seq := 2\<rparr>)"
  by code_simp

lemma twice_a_day_loaded:
  "load_fact_table twice_a_day_warehouse =
     Inr (twice_a_day_warehouse\<lparr>fact_movimentacao_diaria :=
             Some [fact_of 1 ''XYZ'' 19359 10 None, fact_of 2 ''XYZ'' 19360 12 (Some 20),
                   fact_of 3 ''XYZ'' 19360 15 (Some 25)],
           fact_id_seq := 3\<rparr>)"
  by code_simp

lemma load_fact_table_no_division_error: "load_fact_table w \<noteq> Inl DivisionByZero"
  by (auto simp: load_fact_table_def fact_select_value Let_def split: option.splits)

text \<open>
  C1 (as amended). Let \<open>load_fact_table\<close> succeed on a staging without null \<open>date\<close> or
  \<open>close\<close> (as the quality check leaves it) that holds at most one row for a ticker and a
  date. Then for every row of \<open>fact_movimentacao_diaria\<close>, \<open>variacao_diaria\<close> is null if and
  only if staging has no row of its ticker at an earlier date, or the close of its
  ticker's immediately preceding date is zero.
\<close>

theorem change_null_iff:
  assumes "load_fact_table w = Inr w'" and "staging w = Some st"
    and "no_null_date_close st" and "one_row_per_day st"
    and "f \<in> set (rows_of (fact_movimentacao_diaria w'))"
  shows "(variacao_diaria f = None)
           = (previous_rows st (f_ticker f) (f_data_id f) = []
              \<or> previous_close st (f_ticker f) (f_data_id f) = Some 0)"
proof -
  from fact_row_change [OF assms] have m: "staging_of f \<in> set st"
    and v: "variacao_diaria f
              = percent_change (f_close f) (previous_close st (f_ticker f) (f_data_id f))"
    by simp_all
  from m assms(3) have "s_close (staging_of f) \<noteq> None"
    by (simp add: no_null_date_close_def list_all_iff)
  then obtain c where c: "f_close f = Some c"
    by (auto simp: staging_of_def)
  show ?thesis
    unfolding v c previous_close_None [OF assms(3), symmetric]
    by (cases "previous_close st (f_ticker f) (f_data_id f)") (simp_all add: percent_change_def)
qed

text \<open>
  C1, at ticker \<open>XYZ\<close> with closes 10, 12, 9: the first row has no earlier row and a null
  change, the second has previous close 10 and a change.
\<close>

theorem change_null_iff_witness:
  "load_fact_table xyz_warehouse =
     Inr (xyz_warehouse\<lparr>fact_movimentacao_diaria :=
             Some [fact_of 1 ''XYZ'' 19359 10 None, fact_of 2 ''XYZ'' 19360 12 (Some 20),
                   fact_of 3 ''XYZ'' 19361 9 (Some (- 25))],
           fact_id_seq := 3\<rparr>)
   \<and> staging xyz_warehouse = Some xyz_rows
   \<and> no_null_date_close xyz_rows \<and> one_row_per_day xyz_rows
   \<and> (variacao_diaria (fact_of 1 ''XYZ'' 19359 10 None) = None)
       = (previous_rows xyz_rows (Some ''XYZ'') (Some 19359) = []
          \<or> previous_close xyz_rows (Some ''XYZ'') (Some 19359) = Some 0)
   \<and> previous_rows xyz_rows (Some ''XYZ'') (Some 19359) = []
   \<and> (variacao_diaria (fact_of 2 ''XYZ'' 19360 12 (Some 20)) = None)
       = (previous_rows xyz_rows (Some ''XYZ'') (Some 19360) = []
          \<or> previous_close xyz_rows (Some ''XYZ'') (Some 19360) = Some 0)
   \<and> previous_close xyz_rows (Some ''XYZ'') (Some 19360) = Some 10"
proof -
  have s: "staging xyz_warehouse = Some xyz_rows"
    by (simp add: xyz_warehouse_def warehouse_with_def)
  have n: "no_null_date_close xyz_rows"
    by (simp add: no_null_date_close_def xyz_rows_def clean_row_def)
  have o: "one_row_per_day xyz_rows"
    by (simp add: one_row_per_day_def xyz_rows_def clean_row_def)
  have p1: "previous_rows xyz_rows (Some ''XYZ'') (Some 19359) = []"
    by (simp add: previous_rows_def xyz_rows_def clean_row_def)
  have p2: "previous_close xyz_rows (Some ''XYZ'') (Some 19360) = Some 10"
    by (simp add: previous_close_def previous_rows_def xyz_rows_def clean_row_def)
  have f1: "fact_of 1 ''XYZ'' 19359 10 None \<in> set (rows_of (fact_movimentacao_diaria
      (xyz_warehouse\<lparr>fact_movimentacao_diaria :=
             Some [fact_of 1 ''XYZ'' 19359 10 None, fact_of 2 ''XYZ'' 19360 12 (Some 20),
                   fact_of 3 ''XYZ'' 19361 9 (Some (- 25))],
           fact_id_seq := 3\<rparr>)))"
    by (simp add: rows_of_def)
  have f2: "fact_of 2 ''XYZ'' 19360 12 (Some 20) \<in> set (rows_of (fact_movimentacao_diaria
      (xyz_warehouse\<lparr>fact_movimentacao_diaria :=
             Some [fact_of 1 ''XYZ'' 19359 10 None, fact_of 2 ''XYZ'' 19360 12 (Some 20),
                   fact_of 3 ''XYZ'' 19361 9 (Some (- 25))],
           fact_id_seq := 3\<rparr>)))"
    by (simp add: rows_of_def)
  have k: "f_ticker (fact_of i ''XYZ'' d c v) = Some ''XYZ''" "f_data_id (fact_of i ''XYZ'' d c v) = Some d"
    for i d c v
    by (simp_all add: fact_of_def)
  show ?thesis
    using change_null_iff [OF xyz_loaded s n o f1] change_null_iff [OF xyz_loaded s n o f2]
    by (simp only: k xyz_loaded s n o p1 p2 simp_thms)
qed

text \<open>
  C1 as stated fails on two rows of one ticker on one date: the load succeeds, the second
  row's date is the earliest date of its ticker (no row of the ticker is earlier), and
  its \<open>variacao_diaria\<close> is not null: \<open>LAG\<close> gave it the close of the other row of that date.
  (Had PostgreSQL ordered the two peers the other way, the row with close 10 would be the
  one with a change.)
\<close>

theorem change_not_null_on_earliest_date:
  "load_fact_table same_day_warehouse =
     Inr (same_day_warehouse\<lparr>fact_movimentacao_diaria :=
             Some [fact_of 1 ''XYZ'' 19359 10 None, fact_of 2 ''XYZ'' 19359 12 (Some 20)],
           fact_id_seq := 2\<rparr>)
   \<and> staging same_day_warehouse = Some same_day_rows
   \<and> no_null_date_close same_day_rows
   \<and> previous_rows same_day_rows (Some ''XYZ'') (Some 19359) = []
   \<and> f_ticker (fact_of 2 ''XYZ'' 19359 12 (Some 20)) = Some ''XYZ''
   \<and> f_data_id (fact_of 2 ''XYZ'' 19359 12 (Some 20)) = Some 19359
   \<and> variacao_diaria (fact_of 2 ''XYZ'' 19359 12 (Some 20)) \<noteq> None"
  by (simp add: same_day_loaded)
    (simp add: same_day_warehouse_def warehouse_with_def no_null_date_close_def
      same_day_rows_def clean_row_def previous_rows_def fact_of_def)


text \<open>
  C2 (as amended). Let \<open>load_fact_table\<close> succeed on a staging without null \<open>date\<close> or
  \<open>close\<close> that holds at most one row for a ticker and a date, and let \<open>r\<close> be a staging
  row with close \<open>c\<close> whose ticker has an earlier date, the close of the immediately
  preceding one being \<open>pc\<close>. Then the fact table has a row for \<open>r\<close>, and every fact row
  for \<open>r\<close> stores \<open>(c - pc) / pc * 100\<close> if \<open>pc\<close> is not zero and null if it is. And
  \<open>load_fact_table\<close> never ends in a division by zero, on any warehouse.
\<close>

theorem daily_change_formula:
  assumes "load_fact_table w = Inr w'" and "staging w = Some st"
    and "no_null_date_close st" and "one_row_per_day st"
    and "r \<in> set st" and "s_close r = Some c"
    and "previous_close st (s_symbol r) (s_date r) = Some pc"
  shows "r \<in> staging_of ` set (rows_of (fact_movimentacao_diaria w'))
       \<and> list_all (\<lambda>f. staging_of f \<noteq> r
                        \<or> variacao_diaria f = (if pc = 0 then None else Some ((c - pc) / pc * 100)))
            (rows_of (fact_movimentacao_diaria w'))
       \<and> load_fact_table w0 \<noteq> Inl DivisionByZero"
proof -
  have "variacao_diaria f = (if pc = 0 then None else Some ((c - pc) / pc * 100))"
    if f: "f \<in> set (rows_of (fact_movimentacao_diaria w'))" and e: "staging_of f = r" for f
  proof -
    have k: "f_ticker f = s_symbol r" "f_data_id f = s_date r" "f_close f = s_close r"
      using e by (auto simp: staging_of_def)
    from fact_row_change [OF assms(1-4) f] show ?thesis
      by (simp add: k assms(6,7) percent_change_def)
  qed
  then show ?thesis
    using staging_row_has_fact [OF assms(1,2,5)] load_fact_table_no_division_error [of w0]
    by (auto simp: list_all_iff)
qed

text \<open>
  C2, at ticker \<open>XYZ\<close> with closes 10, 12, 9 on three consecutive dates: the third row's
  previous close is 12 and its change -25; the changes are null, 20 and -25.
\<close>

theorem daily_change_formula_witness:
  "load_fact_table xyz_warehouse =
     Inr (xyz_warehouse\<lparr>fact_movimentacao_diaria :=
             Some [fact_of 1 ''XYZ'' 19359 10 None, fact_of 2 ''XYZ'' 19360 12 (Some 20),
                   fact_of 3 ''XYZ'' 19361 9 (Some (- 25))],
           fact_id_seq := 3\<rparr>)
   \<and> staging xyz_warehouse = Some xyz_rows
   \<and> no_null_date_close xyz_rows \<and> one_row_per_day xyz_rows
   \<and> clean_row ''XYZ'' 19361 9 \<in> set xyz_rows
   \<and> s_close (clean_row ''XYZ'' 19361 9) = Some 9
   \<and> previous_close xyz_rows (s_symbol (clean_row ''XYZ'' 19361 9)) (s_date (clean_row ''XYZ'' 19361 9))
       = Some 12
   \<and> list_all (\<lambda>f. staging_of f \<noteq> clean_row ''XYZ'' 19361 9 \<or> variacao_diaria f = Some (- 25))
        [fact_of 1 ''XYZ'' 19359 10 None, fact_of 2 ''XYZ'' 19360 12 (Some 20),
         fact_of 3 ''XYZ'' 19361 9 (Some (- 25))]
   \<and> map variacao_diaria
        [fact_of 1 ''XYZ'' 19359 10 None, fact_of 2 ''XYZ'' 19360 12 (Some 20),
         fact_of 3 ''XYZ'' 19361 9 (Some (- 25))] = [None, Some 20, Some (- 25)]"
proof -
  have s: "staging xyz_warehouse = Some xyz_rows"
    by (simp add: xyz_warehouse_def warehouse_with_def)
  have n: "no_null_date_close xyz_rows"
    by (simp add: no_null_date_close_def xyz_rows_def clean_row_def)
  have o: "one_row_per_day xyz_rows"
    by (simp add: one_row_per_day_def xyz_rows_def clean_row_def)
  have r: "clean_row ''XYZ'' 19361 9 \<in> set xyz_rows"
    by (simp add: xyz_rows_def)
  have c: "s_close (clean_row ''XYZ'' 19361 9) = Some 9"
    by (simp add: clean_row_def)
  have p: "previous_close xyz_rows (s_symbol (clean_row ''XYZ'' 19361 9))
             (s_date (clean_row ''XYZ'' 19361 9)) = Some 12"
    by (simp add: previous_close_def previous_rows_def xyz_rows_def clean_row_def date_key_def)
  have v: "map variacao_diaria
        [fact_of 1 ''XYZ'' 19359 10 None, fact_of 2 ''XYZ'' 19360 12 (Some 20),
         fact_of 3 ''XYZ'' 19361 9 (Some (- 25))] = [None, Some 20, Some (- 25)]"
    by (simp add: fact_of_def)
  have a: "(if (12::rat) = 0 then None else Some (((9::rat) - 12) / 12 * 100)) = Some (- 25)"
    by simp
  have rw: "rows_of (fact_movimentacao_diaria
      (xyz_warehouse\<lparr>fact_movimentacao_diaria :=
             Some [fact_of 1 ''XYZ'' 19359 10 None, fact_of 2 ''XYZ'' 19360 12 (Some 20),
                   fact_of 3 ''XYZ'' 19361 9 (Some (- 25))],
           fact_id_seq := 3\<rparr>))
      = [fact_of 1 ''XYZ'' 19359 10 None, fact_of 2 ''XYZ'' 19360 12 (Some 20),
         fact_of 3 ''XYZ'' 19361 9 (Some (- 25))]"
    by (simp add: rows_of_def)
  show ?thesis
    using daily_change_formula [OF xyz_loaded s n o r c p, of empty_warehouse]
    unfolding rw a
    by (simp only: xyz_loaded s n o r c p v simp_thms)
qed

text \<open>
  C2 as stated fails when a date has two rows: the row with close 15 on the second date
  has a preceding date whose close is 10, so the claim gives it 50, and the fact table
  stores 25, the change against the other row of its own date.
\<close>

theorem daily_change_against_same_day_row:
  "load_fact_table twice_a_day_warehouse =
     Inr (twice_a_day_warehouse\<lparr>fact_movimentacao_diaria :=
             Some [fact_of 1 ''XYZ'' 19359 10 None, fact_of 2 ''XYZ'' 19360 12 (Some 20),
                   fact_of 3 ''XYZ'' 19360 15 (Some 25)],
           fact_id_seq := 3\<rparr>)
   \<and> staging twice_a_day_warehouse = Some twice_a_day_rows
   \<and> no_null_date_close twice_a_day_rows
   \<and> staging_of (fact_of 3 ''XYZ'' 19360 15 (Some 25)) = clean_row ''XYZ'' 19360 15
   \<and> clean_row ''XYZ'' 19360 15 \<in> set twice_a_day_rows
   \<and> previous_close twice_a_day_rows (Some ''XYZ'') (Some 19360) = Some 10
   \<and> variacao_diaria (fact_of 3 ''XYZ'' 19360 15 (Some 25)) \<noteq> Some ((15 - 10) / 10 * 100)"
  by (simp add: twice_a_day_loaded)
    (simp add: twice_a_day_warehouse_def warehouse_with_def no_null_date_close_def
      twice_a_day_rows_def clean_row_def previous_close_def previous_rows_def fact_of_def
      staging_of_def date_key_def)

subsection \<open>The warehouse a run leaves\<close>

lemma run_chain_snd:
  "snd (run_chain (t # ts) s) =
     (case execute t s of Inr s' \<Rightarrow> snd (run_chain ts s') | Inl e \<Rightarrow> s)"
  by (cases "execute t s") (simp_all add: run_chain_step split_beta del: run_chain.simps)

lemma report_db: "report_top_volatility fmt s = Inr s' \<Longrightarrow> db s' = db s"
  by (auto simp: report_top_volatility_def split: option.splits list.splits)

lemma log_db: "log_execution_summary s = Inr s' \<Longrightarrow> db s' = db s"
  by (auto simp: log_execution_summary_def)

lemma report_log_db:
  "db (snd (run_chain
       [\<lparr>task_id = a, retries = m, execute = report_top_volatility fmt\<rparr>,
        \<lparr>task_id = b, retries = n, execute = log_execution_summary\<rparr>] s)) = db s"
  by (auto simp: run_chain_snd report_db log_db split: sum.splits simp del: run_chain.simps(2))

lemma postgres_step_db:
  assumes "\<And>s'. db (snd (run_chain ts s')) = F (db s')"
  shows "db (snd (run_chain (\<lparr>task_id = a, retries = n, execute = postgres_operator sql\<rparr> # ts) s))
           = (case sql (db s) of Inl e \<Rightarrow> db s | Inr w \<Rightarrow> F w)"
  by (simp add: run_chain_snd postgres_operator_def assms split: sum.splits
      del: run_chain.simps)

lemma check_step_db:
  assumes "\<And>s'. db (snd (run_chain ts s')) = F (db s')"
  shows "db (snd (run_chain (\<lparr>task_id = a, retries = n, execute = sql_check_operator sql\<rparr> # ts) s))
           = (case sql (db s) of
                Inl e \<Rightarrow> db s
              | Inr v \<Rightarrow> if check_passes v then F (db s) else db s)"
  by (simp add: run_chain_snd sql_check_operator_def assms split: sum.splits
      del: run_chain.simps)

lemma run_pipeline_db:
  "db (final (run_pipeline sq fmt fs w)) =
     (case fs csv_path of
        None \<Rightarrow> w\<lparr>staging := Some (rows_of (staging w))\<rparr>
      | Some rows \<Rightarrow>
          if check_passes (quality_query rows) then after_check sq (w\<lparr>staging := Some rows\<rparr>)
          else w\<lparr>staging := Some rows\<rparr>)"
proof -
  let ?t7 = "\<lparr>task_id = ''calculate_volatility_view'', retries = default_retries,
        execute = postgres_operator (calculate_volatility_view sq)\<rparr>"
  let ?t6 = "\<lparr>task_id = ''load_fact_table'', retries = default_retries, execute = postgres_operator load_fact_table\<rparr>"
  let ?t5 = "\<lparr>task_id = ''create_dim_tables'', retries = default_retries, execute = postgres_operator create_dim_tables\<rparr>"
  let ?t4 = "\<lparr>task_id = ''run_data_quality_checks'', retries = default_retries,
        execute = sql_check_operator run_data_quality_checks\<rparr>"
  let ?t3 = "\<lparr>task_id = ''load_staging'', retries = default_retries, execute = load_staging fs\<rparr>"
  let ?t2 = "\<lparr>task_id = ''locate_csv'', retries = default_retries, execute = locate_csv fs\<rparr>"
  let ?t1 = "\<lparr>task_id = ''setup_staging_table'', retries = default_retries, execute = postgres_operator setup_staging_table\<rparr>"
  let ?tail = "[\<lparr>task_id = ''report_top_volatility'', retries = default_retries,
        execute = report_top_volatility fmt\<rparr>,
      \<lparr>task_id = ''log_execution_summary'', retries = default_retries,
        execute = log_execution_summary\<rparr>]"
  note a = postgres_step_db [of ?tail "\<lambda>w. w", OF report_log_db]
  note b = postgres_step_db [of "?t7 # ?tail", OF a]
  note c = postgres_step_db [of "?t6 # ?t7 # ?tail", OF b]
  note d = check_step_db [of "?t5 # ?t6 # ?t7 # ?tail", OF c]
  have e: "db (snd (run_chain (?t4 # ?t5 # ?t6 # ?t7 # ?tail) s))
             = (case staging (db s) of
                  None \<Rightarrow> db s
                | Some rows \<Rightarrow> if check_passes (quality_query rows)
                               then after_check sq (db s) else db s)" for s
    by (simp only: d) (simp add: run_data_quality_checks_def after_check_def split: option.splits)
  have f: "db (snd (run_chain (?t3 # ?t4 # ?t5 # ?t6 # ?t7 # ?tail) s))
             = (case fs csv_path of
                  None \<Rightarrow> db s
                | Some rows \<Rightarrow> if check_passes (quality_query rows)
                               then after_check sq ((db s)\<lparr>staging := Some rows\<rparr>)
                               else (db s)\<lparr>staging := Some rows\<rparr>)"
    if "xcom s (''locate_csv'', ''csv_path'') = Some csv_path" and "staging (db s) \<noteq> None" for s
    using that
    by (subst run_chain_snd) (auto simp: load_staging_def e split: option.splits simp del: run_chain.simps)
  have g: "db (snd (run_chain (?t2 # ?t3 # ?t4 # ?t5 # ?t6 # ?t7 # ?tail) s))
             = (case fs csv_path of
                  None \<Rightarrow> db s
                | Some rows \<Rightarrow> if check_passes (quality_query rows)
                               then after_check sq ((db s)\<lparr>staging := Some rows\<rparr>)
                               else (db s)\<lparr>staging := Some rows\<rparr>)"
    if "staging (db s) \<noteq> None" for s
    using that
    by (subst run_chain_snd)
      (auto simp: locate_csv_def f split: option.splits simp del: run_chain.simps)
  have h: "db (snd (run_chain (?t1 # ?t2 # ?t3 # ?t4 # ?t5 # ?t6 # ?t7 # ?tail) s))
             = (case fs csv_path of
                  None \<Rightarrow> (db s)\<lparr>staging := Some (rows_of (staging (db s)))\<rparr>
                | Some rows \<Rightarrow> if check_passes (quality_query rows)
                               then after_check sq ((db s)\<lparr>staging := Some rows\<rparr>)
                               else (db s)\<lparr>staging := Some rows\<rparr>)" for s
    by (subst run_chain_snd)
      (simp add: postgres_operator_def setup_staging_table_def g split: option.splits
        del: run_chain.simps)
  show ?thesis
    by (simp add: run_pipeline_def pipeline_def split_beta h split: option.splits
        del: run_chain.simps)
qed


subsection \<open>Running the pipeline again\<close>

lemma insert_instrumentos_keys:
  "insert_instrumentos tbl xs = Inr tbl' \<Longrightarrow> x \<in> set xs \<Longrightarrow>
     \<exists>k. fst x = Some k \<and> k \<in> set (map ticker tbl')"
proof (induction tbl xs rule: insert_instrumentos.induct)
  case (1 tbl)
  then show ?case by simp
next
  case (2 tbl n t xs)
  then show ?case by simp
next
  case (3 tbl k n t xs)
  show ?case
  proof (cases "x = (Some k, n, t)")
    case False
    with 3 show ?thesis by (auto split: if_splits)
  next
    case True
    show ?thesis
    proof (cases "k \<in> set (map ticker tbl)")
      case in_tbl: True
      with 3 have "prefix tbl tbl'" by (auto dest: insert_instrumentos_grows)
      then have "set (map ticker tbl) \<subseteq> set (map ticker tbl')"
        by (auto simp: prefix_def)
      with True in_tbl show ?thesis by auto
    next
      case new: False
      with 3 have "prefix (tbl @ [\<lparr>ticker = k, nome_ativo = n, tipo_ativo = t\<rparr>]) tbl'"
        by (auto dest: insert_instrumentos_grows)
      then have "k \<in> set (map ticker tbl')"
        by (auto simp: prefix_def)
      with True show ?thesis by simp
    qed
  qed
qed

lemma insert_instrumentos_present:
  "(\<And>x. x \<in> set xs \<Longrightarrow> \<exists>k. fst x = Some k \<and> k \<in> set (map ticker tbl)) \<Longrightarrow>
     insert_instrumentos tbl xs = Inr tbl"
proof (induction xs)
  case Nil
  show ?case by simp
next
  case (Cons x xs)
  obtain k n t where x: "x = (k, n, t)" by (cases x)
  from Cons.prems [of x] x obtain key where "k = Some key" "key \<in> set (map ticker tbl)"
    by auto
  with Cons x show ?case by simp
qed

lemma insert_tempos_keys:
  "insert_tempos tbl xs = Inr tbl' \<Longrightarrow> x \<in> set xs \<Longrightarrow>
     \<exists>d. fst x = Some d \<and> d \<in> set (map data_id tbl')"
proof (induction tbl xs rule: insert_tempos.induct)
  case (1 tbl)
  then show ?case by simp
next
  case (2 tbl y m w xs)
  then show ?case by simp
next
  case (3 tbl d y m w xs)
  show ?case
  proof (cases "x = (Some d, y, m, w)")
    case False
    with 3 show ?thesis by (auto split: if_splits)
  next
    case True
    show ?thesis
    proof (cases "d \<in> set (map data_id tbl)")
      case in_tbl: True
      with 3 have "prefix tbl tbl'" by (auto dest: insert_tempos_grows)
      then have "set (map data_id tbl) \<subseteq> set (map data_id tbl')"
        by (auto simp: prefix_def)
      with True in_tbl show ?thesis by auto
    next
      case new: False
      with 3 have "prefix (tbl @ [\<lparr>data_id = d, ano = y, mes = m, dia_da_semana = w\<rparr>]) tbl'"
        by (auto dest: insert_tempos_grows)
      then have "d \<in> set (map data_id tbl')"
        by (auto simp: prefix_def)
      with True show ?thesis by simp
    qed
  qed
qed

lemma insert_tempos_present:
  "(\<And>x. x \<in> set xs \<Longrightarrow> \<exists>d. fst x = Some d \<and> d \<in> set (map data_id tbl)) \<Longrightarrow>
     insert_tempos tbl xs = Inr tbl"
proof (induction xs)
  case Nil
  show ?case by simp
next
  case (Cons x xs)
  obtain d y m w where x: "x = (d, y, m, w)" by (cases x)
  from Cons.prems [of x] x obtain key where "d = Some key" "key \<in> set (map data_id tbl)"
    by auto
  with Cons x show ?case by simp
qed

text \<open>What a successful \<open>create_dim_tables\<close> leaves.\<close>

lemma create_dim_tables_Inr:
  assumes "create_dim_tables w = Inr wc"
  obtains rows di dt where "staging w = Some rows"
    and "insert_instrumentos (rows_of (dim_instrumento w)) (select_instrumentos rows) = Inr di"
    and "insert_tempos (rows_of (dim_tempo w)) (select_tempos rows) = Inr dt"
    and "wc = w\<lparr>dim_instrumento := Some di, dim_tempo := Some dt\<rparr>"
  using assms
  by (auto simp: create_dim_tables_def split: option.splits sum.splits)


text \<open>Once the dimensions hold the keys of the staging, creating them again changes nothing.\<close>

lemma create_dim_tables_again:
  assumes "create_dim_tables w = Inr wc"
    and "staging w' = staging wc" and "dim_instrumento w' = dim_instrumento wc"
    and "dim_tempo w' = dim_tempo wc"
  shows "create_dim_tables w' = Inr w'"
proof -
  from assms(1) obtain rows di dt where st: "staging w = Some rows"
    and i: "insert_instrumentos (rows_of (dim_instrumento w)) (select_instrumentos rows) = Inr di"
    and t: "insert_tempos (rows_of (dim_tempo w)) (select_tempos rows) = Inr dt"
    and wc: "wc = w\<lparr>dim_instrumento := Some di, dim_tempo := Some dt\<rparr>"
    by (rule create_dim_tables_Inr)
  have i': "insert_instrumentos di (select_instrumentos rows) = Inr di"
    by (rule insert_instrumentos_present) (rule insert_instrumentos_keys [OF i])
  have t': "insert_tempos dt (select_tempos rows) = Inr dt"
    by (rule insert_tempos_present) (rule insert_tempos_keys [OF t])
  have "staging w' = Some rows" "dim_instrumento w' = Some di" "dim_tempo w' = Some dt"
    using assms(2-4) st wc by simp_all
  then show ?thesis
    by (simp add: create_dim_tables_def rows_of_def i' t')
qed

lemma insert_facts_member:
  "f \<in> set (insert_facts q sel) \<Longrightarrow> (staging_of f, variacao_diaria f) \<in> set sel"
proof -
  assume "f \<in> set (insert_facts q sel)"
  then have "(staging_of f, variacao_diaria f)
               \<in> set (map (\<lambda>f. (staging_of f, variacao_diaria f)) (insert_facts q sel))"
    by (simp only: set_map) (rule imageI)
  then show ?thesis by (simp only: staging_of_insert_facts)
qed

text \<open>After \<open>create_dim_tables\<close> every reference of the fact rows is in the dimensions.\<close>

lemma load_fact_table_after_dims:
  assumes "create_dim_tables w = Inr wc"
    and "staging w' = staging wc" and "dim_instrumento w' = dim_instrumento wc"
    and "dim_tempo w' = dim_tempo wc"
  obtains sel where
    "load_fact_table w'
       = Inr (w'\<lparr>fact_movimentacao_diaria :=
                  Some (insert_facts (case fact_movimentacao_diaria w' of
                                        None \<Rightarrow> 0 | Some _ \<Rightarrow> fact_id_seq w') sel),
                fact_id_seq := (case fact_movimentacao_diaria w' of
                                  None \<Rightarrow> 0 | Some _ \<Rightarrow> fact_id_seq w') + int (length sel)\<rparr>)"
    and "sel = map (\<lambda>(r, lag). (r, percent_change (s_close r) lag))
                 (concat (map lag_close (window_partitions (rows_of (staging w)))))"
proof -
  from assms(1) obtain rows di dt where st: "staging w = Some rows"
    and i: "insert_instrumentos (rows_of (dim_instrumento w)) (select_instrumentos rows) = Inr di"
    and t: "insert_tempos (rows_of (dim_tempo w)) (select_tempos rows) = Inr dt"
    and wc: "wc = w\<lparr>dim_instrumento := Some di, dim_tempo := Some dt\<rparr>"
    by (rule create_dim_tables_Inr)
  let ?win = "concat (map lag_close (window_partitions rows))"
  let ?sel = "map (\<lambda>(r, lag). (r, percent_change (s_close r) lag)) ?win"
  let ?q = "case fact_movimentacao_diaria w' of None \<Rightarrow> 0 | Some _ \<Rightarrow> fact_id_seq w'"
  have w': "staging w' = Some rows" "dim_instrumento w' = Some di" "dim_tempo w' = Some dt"
    using assms(2-4) st wc by simp_all
  have ok: "references_ok di dt f" if f: "f \<in> set (insert_facts ?q ?sel)" for f
  proof -
    from insert_facts_member [OF f] have "staging_of f \<in> fst ` set ?sel"
      by force
    also have "fst ` set ?sel = fst ` set ?win"
      by (force simp: image_image split_beta)
    finally have r: "staging_of f \<in> set rows"
      by (simp only: window_covers)
    have "(s_symbol (staging_of f), sql_concat (Some ''Ativo '') (s_symbol (staging_of f)), Some ''Acao'')
            \<in> set (select_instrumentos rows)"
      using r by (auto simp: select_instrumentos_def)
    from insert_instrumentos_keys [OF i this]
    have a: "\<exists>k. f_ticker f = Some k \<and> k \<in> set (map ticker di)"
      by (simp add: staging_of_def)
    have "(s_date (staging_of f), map_option extract_year (s_date (staging_of f)),
           map_option extract_month (s_date (staging_of f)),
           map_option extract_dow (s_date (staging_of f))) \<in> set (select_tempos rows)"
      using r by (auto simp: select_tempos_def)
    from insert_tempos_keys [OF t this]
    have b: "\<exists>d. f_data_id f = Some d \<and> d \<in> set (map data_id dt)"
      by (simp add: staging_of_def)
    from a b show ?thesis
      by (auto simp: references_ok_def)
  qed
  then have "list_all (references_ok di dt) (insert_facts ?q ?sel)"
    by (simp add: list_all_iff)
  then have l: "load_fact_table w'
      = Inr (w'\<lparr>fact_movimentacao_diaria := Some (insert_facts ?q ?sel),
                fact_id_seq := ?q + int (length ?sel)\<rparr>)"
    by (simp add: load_fact_table_def w' fact_select_value Let_def)
  have r: "rows_of (staging w) = rows"
    by (simp add: st rows_of_def)
  show thesis
    by (rule that [of ?sel]) (rule l, simp only: r)
qed

lemma without_id_insert_facts: "map without_id (insert_facts q sel) = sel"
  using staging_of_insert_facts [of q sel] by (simp add: without_id_def [abs_def])

text \<open>The weekly volatility does not look at the \<open>id\<close> of the fact rows.\<close>

lemma volatility_query_without_id:
  assumes "map without_id a = map without_id b"
  shows "volatility_query sq a = volatility_query sq b"
proof -
  let ?gk = "\<lambda>p. (s_symbol (fst p), map_option date_trunc_week (s_date (fst p)))"
  have k: "map group_key (filter (\<lambda>f. variacao_diaria f \<noteq> None) xs)
             = map ?gk (filter (\<lambda>p. snd p \<noteq> None) (map without_id xs))" for xs
    by (induction xs) (simp_all add: without_id_def group_key_def staging_of_def)
  have v: "map variacao_diaria
             (filter (\<lambda>f. group_key f = g) (filter (\<lambda>f. variacao_diaria f \<noteq> None) xs))
           = map snd (filter (\<lambda>p. ?gk p = g) (filter (\<lambda>p. snd p \<noteq> None) (map without_id xs)))"
    for xs g
    by (induction xs) (simp_all add: without_id_def group_key_def staging_of_def)
  show ?thesis
    unfolding volatility_query_def Let_def k v assms ..
qed

text \<open>The tasks after the quality check, once \<open>create_dim_tables\<close> went through.\<close>

lemma after_check_value:
  assumes "create_dim_tables v = Inr wc"
    and "staging w' = staging wc" and "dim_instrumento w' = dim_instrumento wc"
    and "dim_tempo w' = dim_tempo wc"
  obtains sel where
    "after_check sq w'
       = w'\<lparr>fact_movimentacao_diaria :=
               Some (insert_facts (case fact_movimentacao_diaria w' of
                                     None \<Rightarrow> 0 | Some _ \<Rightarrow> fact_id_seq w') sel),
             fact_id_seq := (case fact_movimentacao_diaria w' of
                               None \<Rightarrow> 0 | Some _ \<Rightarrow> fact_id_seq w') + int (length sel),
             volatility_weekly :=
               Some (volatility_query sq
                 (insert_facts (case fact_movimentacao_diaria w' of
                                  None \<Rightarrow> 0 | Some _ \<Rightarrow> fact_id_seq w') sel))\<rparr>"
    and "sel = map (\<lambda>(r, lag). (r, percent_change (s_close r) lag))
                 (concat (map lag_close (window_partitions (rows_of (staging v)))))"
proof -
  have c: "create_dim_tables w' = Inr w'"
    by (rule create_dim_tables_again [OF assms])
  from assms obtain sel where
    l: "load_fact_table w'
       = Inr (w'\<lparr>fact_movimentacao_diaria :=
                  Some (insert_facts (case fact_movimentacao_diaria w' of
                                        None \<Rightarrow> 0 | Some _ \<Rightarrow> fact_id_seq w') sel),
                fact_id_seq := (case fact_movimentacao_diaria w' of
                                  None \<Rightarrow> 0 | Some _ \<Rightarrow> fact_id_seq w') + int (length sel)\<rparr>)"
    and s: "sel = map (\<lambda>(r, lag). (r, percent_change (s_close r) lag))
                 (concat (map lag_close (window_partitions (rows_of (staging v)))))"
    by (rule load_fact_table_after_dims)
  show thesis
    by (rule that [of sel])
      (simp_all add: after_check_def c l s calculate_volatility_view_def)
qed

lemma create_dim_tables_frame:
  assumes "create_dim_tables v = Inr wc"
  shows "staging wc = staging v" and "fact_movimentacao_diaria wc = fact_movimentacao_diaria v"
    and "fact_id_seq wc = fact_id_seq v" and "volatility_weekly wc = volatility_weekly v"
  using assms by (auto elim!: create_dim_tables_Inr)

lemma after_check_dims:
  assumes "create_dim_tables v = Inr wc"
  shows "after_check sq v = after_check sq wc"
proof -
  have "create_dim_tables wc = Inr wc"
    by (rule create_dim_tables_again [OF assms refl refl refl])
  then show ?thesis
    by (simp add: after_check_def assms)
qed

lemma after_check_staging: "staging (after_check sq v) = staging v"
proof (cases "create_dim_tables v")
  case (Inl e)
  then show ?thesis by (simp add: after_check_def)
next
  case (Inr wc)
  obtain sel where
    "after_check sq wc
       = wc\<lparr>fact_movimentacao_diaria :=
               Some (insert_facts (case fact_movimentacao_diaria wc of
                                     None \<Rightarrow> 0 | Some _ \<Rightarrow> fact_id_seq wc) sel),
             fact_id_seq := (case fact_movimentacao_diaria wc of
                               None \<Rightarrow> 0 | Some _ \<Rightarrow> fact_id_seq wc) + int (length sel),
             volatility_weekly :=
               Some (volatility_query sq
                 (insert_facts (case fact_movimentacao_diaria wc of
                                  None \<Rightarrow> 0 | Some _ \<Rightarrow> fact_id_seq wc) sel))\<rparr>"
    by (rule after_check_value [OF Inr refl refl refl, of sq])
  then have "staging (after_check sq wc) = staging wc"
    by simp
  then show ?thesis
    by (simp only: after_check_dims [OF Inr] create_dim_tables_frame(1) [OF Inr])
qed

text \<open>Running those tasks a second time, on what the first time left.\<close>

lemma after_check_again:
  "dim_instrumento (after_check sq (after_check sq v)) = dim_instrumento (after_check sq v)
   \<and> dim_tempo (after_check sq (after_check sq v)) = dim_tempo (after_check sq v)
   \<and> volatility_weekly (after_check sq (after_check sq v)) = volatility_weekly (after_check sq v)
   \<and> map_option (map without_id) (fact_movimentacao_diaria (after_check sq (after_check sq v)))
       = map_option (map without_id) (fact_movimentacao_diaria (after_check sq v))"
proof (cases "create_dim_tables v")
  case (Inl e)
  then show ?thesis by (simp add: after_check_def)
next
  case (Inr wc)
  define q0 where "q0 = (case fact_movimentacao_diaria wc of None \<Rightarrow> 0 | Some _ \<Rightarrow> fact_id_seq wc)"
  obtain sel where
    w1: "after_check sq wc
       = wc\<lparr>fact_movimentacao_diaria := Some (insert_facts q0 sel),
             fact_id_seq := q0 + int (length sel),
             volatility_weekly := Some (volatility_query sq (insert_facts q0 sel))\<rparr>"
    and sel: "sel = map (\<lambda>(r, lag). (r, percent_change (s_close r) lag))
                 (concat (map lag_close (window_partitions (rows_of (staging v)))))"
    unfolding q0_def by (rule after_check_value [OF Inr refl refl refl, of sq])
  define u where "u = after_check sq wc"
  have u: "u = wc\<lparr>fact_movimentacao_diaria := Some (insert_facts q0 sel),
             fact_id_seq := q0 + int (length sel),
             volatility_weekly := Some (volatility_query sq (insert_facts q0 sel))\<rparr>"
    by (simp only: u_def w1)
  have same: "staging u = staging wc" "dim_instrumento u = dim_instrumento wc"
    "dim_tempo u = dim_tempo wc"
    by (simp_all add: u)
  define q1 where "q1 = (case fact_movimentacao_diaria u of None \<Rightarrow> 0 | Some _ \<Rightarrow> fact_id_seq u)"
  obtain sel' where
    w2: "after_check sq u
       = u\<lparr>fact_movimentacao_diaria := Some (insert_facts q1 sel'),
            fact_id_seq := q1 + int (length sel'),
            volatility_weekly := Some (volatility_query sq (insert_facts q1 sel'))\<rparr>"
    and sel': "sel' = map (\<lambda>(r, lag). (r, percent_change (s_close r) lag))
                 (concat (map lag_close (window_partitions (rows_of (staging v)))))"
    unfolding q1_def by (rule after_check_value [OF Inr same, of sq])
  have e: "sel' = sel" by (simp only: sel sel')
  have vq: "volatility_query sq (insert_facts q1 sel) = volatility_query sq (insert_facts q0 sel)"
    by (rule volatility_query_without_id) (simp only: without_id_insert_facts)
  have first: "after_check sq v = u"
    by (simp only: u_def after_check_dims [OF Inr])
  have d: "dim_instrumento (after_check sq u) = dim_instrumento u"
    "dim_tempo (after_check sq u) = dim_tempo u"
    by (subst w2, simp)+
  have f2: "fact_movimentacao_diaria (after_check sq u) = Some (insert_facts q1 sel)"
    by (subst w2) (simp add: e)
  have v2: "volatility_weekly (after_check sq u) = Some (volatility_query sq (insert_facts q0 sel))"
    by (subst w2) (simp add: e vq)
  have f1: "fact_movimentacao_diaria u = Some (insert_facts q0 sel)"
    and v1: "volatility_weekly u = Some (volatility_query sq (insert_facts q0 sel))"
    by (simp_all add: u)
  show ?thesis
    unfolding first d f2 v2 f1 v1
    by (simp add: without_id_insert_facts)
qed

theorem rerun_same_contents:
  "dim_instrumento (db (final (run_pipeline sq fmt fs (db (final (run_pipeline sq fmt fs w))))))
     = dim_instrumento (db (final (run_pipeline sq fmt fs w)))
   \<and> dim_tempo (db (final (run_pipeline sq fmt fs (db (final (run_pipeline sq fmt fs w))))))
     = dim_tempo (db (final (run_pipeline sq fmt fs w)))
   \<and> volatility_weekly (db (final (run_pipeline sq fmt fs (db (final (run_pipeline sq fmt fs w))))))
     = volatility_weekly (db (final (run_pipeline sq fmt fs w)))
   \<and> map_option (map without_id)
       (fact_movimentacao_diaria
          (db (final (run_pipeline sq fmt fs (db (final (run_pipeline sq fmt fs w)))))))
     = map_option (map without_id)
         (fact_movimentacao_diaria (db (final (run_pipeline sq fmt fs w))))"
proof (cases "fs csv_path")
  case None
  have 1: "db (final (run_pipeline sq fmt fs u)) = u\<lparr>staging := Some (rows_of (staging u))\<rparr>" for u
    by (simp add: run_pipeline_db None)
  show ?thesis
    unfolding 1 by (simp add: rows_of_def)
next
  case (Some rows)
  show ?thesis
  proof (cases "check_passes (quality_query rows)")
    case False
    have 1: "db (final (run_pipeline sq fmt fs u)) = u\<lparr>staging := Some rows\<rparr>" for u
      by (simp add: run_pipeline_db Some False)
    show ?thesis
      unfolding 1 by simp
  next
    case True
    have 1: "db (final (run_pipeline sq fmt fs u)) = after_check sq (u\<lparr>staging := Some rows\<rparr>)" for u
      by (simp add: run_pipeline_db Some True)
    define v where "v = w\<lparr>staging := Some rows\<rparr>"
    have "staging (after_check sq v) = Some rows"
      by (simp add: after_check_staging v_def)
    then have 2: "(after_check sq v)\<lparr>staging := Some rows\<rparr> = after_check sq v"
      by simp
    show ?thesis
      unfolding 1 v_def [symmetric] 2 by (rule after_check_again)
  qed
qed

lemma insert_instrumentos_succeeds:
  "(\<And>x. x \<in> set xs \<Longrightarrow> fst x \<noteq> None) \<Longrightarrow> \<exists>tbl'. insert_instrumentos tbl xs = Inr tbl'"
proof (induction xs arbitrary: tbl)
  case Nil
  show ?case by simp
next
  case (Cons x xs)
  obtain k n t where x: "x = (k, n, t)" by (cases x)
  from Cons.prems [of x] x obtain key where k: "k = Some key" by auto
  have "\<exists>tbl'. insert_instrumentos tbl0 xs = Inr tbl'" for tbl0
    by (rule Cons.IH) (simp add: Cons.prems)
  then show ?case by (simp add: x k)
qed

lemma insert_tempos_succeeds:
  "(\<And>x. x \<in> set xs \<Longrightarrow> fst x \<noteq> None) \<Longrightarrow> \<exists>tbl'. insert_tempos tbl xs = Inr tbl'"
proof (induction xs arbitrary: tbl)
  case Nil
  show ?case by simp
next
  case (Cons x xs)
  obtain d y m w where x: "x = (d, y, m, w)" by (cases x)
  from Cons.prems [of x] x obtain key where k: "d = Some key" by auto
  have "\<exists>tbl'. insert_tempos tbl0 xs = Inr tbl'" for tbl0
    by (rule Cons.IH) (simp add: Cons.prems)
  then show ?case by (simp add: x k)
qed

text \<open>\<open>create_dim_tables\<close> goes through when no staged row has a null symbol or date.\<close>

lemma create_dim_tables_succeeds:
  assumes "staging v = Some rows"
    and "list_all (\<lambda>r. s_symbol r \<noteq> None \<and> s_date r \<noteq> None) rows"
  shows "\<exists>wc. create_dim_tables v = Inr wc"
proof -
  have "\<exists>di. insert_instrumentos (rows_of (dim_instrumento v)) (select_instrumentos rows) = Inr di"
    by (rule insert_instrumentos_succeeds)
      (use assms(2) in \<open>auto simp: select_instrumentos_def list_all_iff\<close>)
  moreover have "\<exists>dt. insert_tempos (rows_of (dim_tempo v)) (select_tempos rows) = Inr dt"
    by (rule insert_tempos_succeeds)
      (use assms(2) in \<open>auto simp: select_tempos_def list_all_iff\<close>)
  ultimately show ?thesis
    by (auto simp: create_dim_tables_def assms(1))
qed

text \<open>The window holds every staged row once.\<close>

lemma sum_list_indicator:
  "distinct ks \<Longrightarrow> a \<in> set ks \<Longrightarrow> (\<Sum>k\<leftarrow>ks. if a = k then 1 else 0) = (1::nat)"
proof (induction ks)
  case Nil
  then show ?case by simp
next
  case (Cons k ks)
  show ?case
  proof (cases "a = k")
    case True
    with Cons.prems have "a \<notin> set ks" by simp
    then have "(\<Sum>k\<leftarrow>ks. if a = k then 1 else 0) = (0::nat)"
      by (induction ks) auto
    with True show ?thesis by simp
  next
    case False
    with Cons show ?thesis by simp
  qed
qed

lemma length_partitions:
  assumes "distinct ks" and "f ` set xs \<subseteq> set ks"
  shows "(\<Sum>k\<leftarrow>ks. length (filter (\<lambda>x. f x = k) xs)) = length xs"
  using assms(2)
proof (induction xs)
  case Nil
  show ?case by simp
next
  case (Cons x xs)
  have "(\<Sum>k\<leftarrow>ks. length (filter (\<lambda>y. f y = k) (x # xs)))
          = (\<Sum>k\<leftarrow>ks. (if f x = k then 1 else 0) + length (filter (\<lambda>y. f y = k) xs))"
    by (rule arg_cong [where f = sum_list]) simp
  also have "\<dots> = (\<Sum>k\<leftarrow>ks. if f x = k then 1 else 0)
                    + (\<Sum>k\<leftarrow>ks. length (filter (\<lambda>y. f y = k) xs))"
    by (simp add: sum_list_addf)
  also have "\<dots> = 1 + length xs"
    using Cons sum_list_indicator [OF assms(1), of "f x"] by simp
  finally show ?case by simp
qed

lemma length_window: "length (concat (map lag_close (window_partitions rows))) = length rows"
proof -
  let ?ks = "sort_key symbol_key (remdups (map s_symbol rows))"
  have "length (concat (map lag_close (window_partitions rows)))
          = (\<Sum>k\<leftarrow>?ks. length (filter (\<lambda>r. s_symbol r = k) rows))"
    by (simp add: window_partitions_def length_concat comp_def lag_close_def)
  also have "\<dots> = length rows"
    by (rule length_partitions) simp_all
  finally show ?thesis .
qed

lemma first_id: "sel \<noteq> [] \<Longrightarrow> map f_id (take 1 (insert_facts q sel)) = [q + 1]"
  by (cases sel) auto

lemma long_rows_pass: "check_passes (quality_query long_rows)"
  by (simp add: check_passes_def quality_query_value long_rows_def clean_row_def filter_map
      comp_def)

lemma long_rows_keys: "list_all (\<lambda>r. s_symbol r \<noteq> None \<and> s_date r \<noteq> None) long_rows"
  by (simp add: long_rows_def clean_row_def list_all_iff)

text \<open>
  C7 as stated fails. On a source of 750,000 rows (one ticker, consecutive dates) and a
  fresh warehouse, the fact table after the first run starts at \<open>id\<close> 1 and after the
  second run at \<open>id\<close> 750001: \<open>TRUNCATE\<close> does not restart the sequence of the \<open>SERIAL\<close>
  column, so the contents of the fact table are not those of the first run.
\<close>

theorem rerun_changes_ids:
  "map f_id (take 1 (rows_of (fact_movimentacao_diaria (db (final
       (run_pipeline sqrt_stub format_stub (csv_with long_rows) empty_warehouse)))))) = [1]
   \<and> map f_id (take 1 (rows_of (fact_movimentacao_diaria (db (final
       (run_pipeline sqrt_stub format_stub (csv_with long_rows)
          (db (final (run_pipeline sqrt_stub format_stub (csv_with long_rows)
                 empty_warehouse))))))))) = [750001]
   \<and> fact_movimentacao_diaria (db (final
       (run_pipeline sqrt_stub format_stub (csv_with long_rows)
          (db (final (run_pipeline sqrt_stub format_stub (csv_with long_rows)
                 empty_warehouse))))))
     \<noteq> fact_movimentacao_diaria (db (final
       (run_pipeline sqrt_stub format_stub (csv_with long_rows) empty_warehouse)))"
proof -
  have 1: "db (final (run_pipeline sqrt_stub format_stub (csv_with long_rows) x))
             = after_check sqrt_stub (x\<lparr>staging := Some long_rows\<rparr>)" for x
    by (simp add: run_pipeline_db csv_with_def long_rows_pass)
  define v where "v = empty_warehouse\<lparr>staging := Some long_rows\<rparr>"
  have sv: "staging v = Some long_rows" and fv: "fact_movimentacao_diaria v = None"
    by (simp_all add: v_def empty_warehouse_def)
  from create_dim_tables_succeeds [OF sv long_rows_keys]
  obtain wc where c: "create_dim_tables v = Inr wc" ..
  have fc: "fact_movimentacao_diaria wc = None"
    by (simp only: create_dim_tables_frame(2) [OF c] fv)
  obtain sel where
    w1: "after_check sqrt_stub wc
       = wc\<lparr>fact_movimentacao_diaria := Some (insert_facts 0 sel),
             fact_id_seq := 0 + int (length sel),
             volatility_weekly := Some (volatility_query sqrt_stub (insert_facts 0 sel))\<rparr>"
    and sel: "sel = map (\<lambda>(r, lag). (r, percent_change (s_close r) lag))
                 (concat (map lag_close (window_partitions (rows_of (staging v)))))"
    using after_check_value [OF c refl refl refl, of sqrt_stub] by (auto simp: fc)
  have len: "length sel = 750000"
    by (simp add: sel length_window sv rows_of_def) (simp add: long_rows_def)
  then have ne: "sel \<noteq> []" by auto
  define u where "u = after_check sqrt_stub v"
  have u: "u = wc\<lparr>fact_movimentacao_diaria := Some (insert_facts 0 sel),
             fact_id_seq := 0 + int (length sel),
             volatility_weekly := Some (volatility_query sqrt_stub (insert_facts 0 sel))\<rparr>"
    by (simp only: u_def after_check_dims [OF c] w1)
  have same: "staging u = staging wc" "dim_instrumento u = dim_instrumento wc"
    "dim_tempo u = dim_tempo wc"
    by (simp_all add: u)
  have fu: "fact_movimentacao_diaria u = Some (insert_facts 0 sel)"
    and qu: "fact_id_seq u = 750000"
    by (simp_all add: u len)
  obtain sel' where
    w2: "after_check sqrt_stub u
       = u\<lparr>fact_movimentacao_diaria := Some (insert_facts 750000 sel'),
            fact_id_seq := 750000 + int (length sel'),
            volatility_weekly := Some (volatility_query sqrt_stub (insert_facts 750000 sel'))\<rparr>"
    and sel': "sel' = map (\<lambda>(r, lag). (r, percent_change (s_close r) lag))
                 (concat (map lag_close (window_partitions (rows_of (staging v)))))"
    using after_check_value [OF c same, of sqrt_stub] by (auto simp: fu qu)
  have e: "sel' = sel" by (simp only: sel sel')
  have su: "u\<lparr>staging := Some long_rows\<rparr> = u"
    using same(1) create_dim_tables_frame(1) [OF c] sv by simp
  have f2: "fact_movimentacao_diaria (after_check sqrt_stub u) = Some (insert_facts 750000 sel)"
    by (subst w2) (simp add: e)
  have a: "map f_id (take 1 (rows_of (fact_movimentacao_diaria u))) = [1]"
    using first_id [OF ne, of 0] by (simp add: fu rows_of_def)
  have b: "map f_id (take 1 (rows_of (fact_movimentacao_diaria (after_check sqrt_stub u)))) = [750001]"
    using first_id [OF ne, of 750000] by (simp add: f2 rows_of_def)
  from a b have "fact_movimentacao_diaria (after_check sqrt_stub u) \<noteq> fact_movimentacao_diaria u"
    by auto
  with a b show ?thesis
    unfolding 1 v_def [symmetric] u_def [symmetric] su by simp
qed

end
